theory Spec2Isabelle
  imports Main "HOL-Library.Char_ord" "HOL-Library.List_Lexorder"
begin

section \<open>JSON values\<close>

text \<open>
  The vault stores and hashes JSON documents. A JSON value is modelled with its object
  members in enumeration order (the order \<^verbatim>\<open>JSON.stringify\<close> emits and
  \<^verbatim>\<open>Object.keys\<close> lists), and an object has each key once. Strings are lists of
  8-bit characters (Latin-1 code units).

  Numbers are the integers (versions, cursors). A JavaScript number is a double: the
  integers up to \<open>2^53\<close> in magnitude are all doubles, and on them the arithmetic of
  the engine and the decimal text of a number are exact. Where a number is read from
  text a request supplies (\<^verbatim>\<open>Number.parseInt\<close>) or is computed
  (\<^verbatim>\<open>version + 1\<close>), the rounding to a double is written out (\<open>round_double\<close>).
\<close>

datatype json =
    JNull
  | JBool bool
  | JNum int
  | JStr string
  | JArr "json list"
  | JObj "(string \<times> json) list"

subsection \<open>Numbers read from text, and doubles\<close>

definition is_digit :: "char \<Rightarrow> bool" where
  "is_digit c = List.member ''0123456789'' c"

fun digit_value :: "char \<Rightarrow> string \<Rightarrow> int" where
  "digit_value c [] = 0"
| "digit_value c (d # ds) = (if c = d then 0 else 1 + digit_value c ds)"

text \<open>The integer a string of decimal digits denotes.\<close>

definition decimal_value :: "string \<Rightarrow> int" where
  "decimal_value ds = foldl (\<lambda>acc c. 10 * acc + digit_value c ''0123456789'') 0 ds"

text \<open>
  The double nearest to a non-negative integer: an integer of at most 53 binary digits
  is a double; a longer one is rounded to 53 significant binary digits, a tie going to
  the even significand. \<open>to_number\<close> adds the overflow: from \<open>2^1024\<close> on the rounded
  value is \<^verbatim>\<open>Infinity\<close>.
\<close>

function bit_length :: "int \<Rightarrow> nat" where
  "bit_length n = (if n \<le> 0 then 0 else Suc (bit_length (n div 2)))"
  by pat_completeness auto
termination
  by (relation "measure nat") auto

declare bit_length.simps [simp del]

definition round_double :: "int \<Rightarrow> int" where
  "round_double n =
     (if bit_length n \<le> 53 then n
      else (let e = bit_length n - 53; q = n div 2 ^ e; r = n mod 2 ^ e; h = 2 ^ (e - 1)
            in (if h < r \<or> (r = h \<and> odd q) then q + 1 else q) * 2 ^ e))"

datatype number = Num int | PosInfinity

definition to_number :: "int \<Rightarrow> number" where
  "to_number n = (let r = round_double n in if r < 2 ^ 1024 then Num r else PosInfinity)"

subsection \<open>\<^verbatim>\<open>JSON.stringify\<close>\<close>

definition digit_char :: "nat \<Rightarrow> char" where
  "digit_char n = ''0123456789abcdef'' ! n"

fun string_of_nat :: "nat \<Rightarrow> string" where
  "string_of_nat n =
     (if n < 10 then [digit_char n]
      else string_of_nat (n div 10) @ [digit_char (n mod 10)])"

declare string_of_nat.simps [simp del]

definition string_of_int :: "int \<Rightarrow> string" where
  "string_of_int i =
     (if i < 0 then CHR ''-'' # string_of_nat (nat (- i)) else string_of_nat (nat i))"

text \<open>QuoteJSONString of ECMA-262, on one code unit.\<close>

definition json_escape :: "char \<Rightarrow> string" where
  "json_escape c =
     (if c = CHR 0x22 then [CHR 0x5C, CHR 0x22]
      else if c = CHR 0x5C then [CHR 0x5C, CHR 0x5C]
      else if c = CHR 0x08 then [CHR 0x5C, CHR ''b'']
      else if c = CHR 0x09 then [CHR 0x5C, CHR ''t'']
      else if c = CHR 0x0A then [CHR 0x5C, CHR ''n'']
      else if c = CHR 0x0C then [CHR 0x5C, CHR ''f'']
      else if c = CHR 0x0D then [CHR 0x5C, CHR ''r'']
      else if c < CHR 0x20
      then [CHR 0x5C, CHR ''u'', CHR ''0'', CHR ''0'',
            digit_char (of_char c div 16), digit_char (of_char c mod 16)]
      else [c])"

definition json_quote :: "string \<Rightarrow> string" where
  "json_quote s = CHR 0x22 # concat (map json_escape s) @ [CHR 0x22]"

fun join_with :: "string \<Rightarrow> string list \<Rightarrow> string" where
  "join_with sep [] = []"
| "join_with sep [x] = x"
| "join_with sep (x # y # ys) = x @ sep @ join_with sep (y # ys)"

fun JSON_stringify :: "json \<Rightarrow> string" where
  "JSON_stringify JNull = ''null''"
| "JSON_stringify (JBool b) = (if b then ''true'' else ''false'')"
| "JSON_stringify (JNum n) = string_of_int n"
| "JSON_stringify (JStr s) = json_quote s"
| "JSON_stringify (JArr xs) = ''['' @ join_with '','' (map JSON_stringify xs) @ '']''"
| "JSON_stringify (JObj kvs) =
     ''{'' @ join_with '','' (map (\<lambda>(k, v). json_quote k @ '':'' @ JSON_stringify v) kvs) @ ''}''"

subsection \<open>canonical.ts\<close>

text \<open>
  \<^verbatim>\<open>sortValue\<close> maps over arrays and rebuilds every object: it assigns the members
  to a new object \<^verbatim>\<open>out\<close> in the order of \<^verbatim>\<open>Object.keys(obj).sort()\<close>
  (code-unit order). \<^verbatim>\<open>canonicalJson\<close> serialises the result, and
  \<^verbatim>\<open>JSON.stringify\<close> follows the property order of \<^verbatim>\<open>out\<close>, which is not the
  order of the assignments: the keys that are array indices (canonical decimal numerals
  up to \<open>2^32 - 2\<close>) come first, by their numeric value, and the other keys follow in
  the order they were assigned. An assignment to \<^verbatim>\<open>__proto__\<close> reaches the setter of
  \<^verbatim>\<open>Object.prototype\<close> and creates no property. \<open>own_properties\<close> is that order,
  for assignments to distinct keys.

  \<^verbatim>\<open>sha256Hex\<close> is Node's \<^verbatim>\<open>createHash\<close>; it is a parameter of the model (see
  \<open>platform\<close> below).
\<close>

definition is_array_index :: "string \<Rightarrow> bool" where
  "is_array_index k =
     (k \<noteq> [] \<and> list_all is_digit k \<and> (hd k = CHR ''0'' \<longrightarrow> k = ''0'')
      \<and> decimal_value k \<le> 4294967294)"

definition own_properties :: "(string \<times> 'a) list \<Rightarrow> (string \<times> 'a) list" where
  "own_properties kvs =
     (let own = filter (\<lambda>(k, v). k \<noteq> ''__proto__'') kvs
      in sort_key (\<lambda>(k, v). decimal_value k) (filter (\<lambda>(k, v). is_array_index k) own)
         @ filter (\<lambda>(k, v). \<not> is_array_index k) own)"

fun sortValue :: "json \<Rightarrow> json" where
  "sortValue (JArr xs) = JArr (map sortValue xs)"
| "sortValue (JObj kvs) =
     JObj (own_properties (sort_key fst (map (\<lambda>(k, v). (k, sortValue v)) kvs)))"
| "sortValue v = v"

definition canonicalJson :: "json \<Rightarrow> string" where
  "canonicalJson v = JSON_stringify (sortValue v)"

section \<open>errors.ts\<close>

text \<open>
  \<^verbatim>\<open>HttpError\<close> carries a message, a status code, optional details and optional
  headers; the five subclasses fix the status code. Exceptions that are not
  \<^verbatim>\<open>HttpError\<close>s (a \<^verbatim>\<open>SyntaxError\<close> of \<^verbatim>\<open>JSON.parse\<close>, a
  \<^verbatim>\<open>JsonPatchError\<close> of the patch library, a failed file read) are \<open>JsError\<close>.
  The diagnostic details of validation errors (the flattened issues of the schema
  library) are left out; the details of a conflict are kept.
\<close>

datatype error_class =
  SchemaValidation | Conflict | PatchApply | StorageCorruption | Unauthorized

datatype exn =
    HttpError error_class string nat "(string \<times> json) list" "(string \<times> string) list"
  | JsError string

definition SchemaValidationError :: "string \<Rightarrow> exn" where
  "SchemaValidationError msg = HttpError SchemaValidation msg 400 [] []"

definition ConflictError :: "string \<Rightarrow> string \<Rightarrow> exn" where
  "ConflictError msg currentETag =
     HttpError Conflict msg 409 [(''current_etag'', JStr currentETag)] [(''ETag'', currentETag)]"

definition PatchApplyError :: "string \<Rightarrow> exn" where
  "PatchApplyError msg = HttpError PatchApply msg 422 [] []"

definition StorageCorruptionError :: "string \<Rightarrow> exn" where
  "StorageCorruptionError msg = HttpError StorageCorruption msg 500 [] []"


fun is_StorageCorruptionError :: "exn \<Rightarrow> bool" where
  "is_StorageCorruptionError (HttpError c _ _ _ _) = (c = StorageCorruption)"
| "is_StorageCorruptionError (JsError _) = False"

fun statusCode :: "exn \<Rightarrow> nat option" where
  "statusCode (HttpError _ _ code _ _) = Some code"
| "statusCode (JsError _) = None"

fun error_details :: "exn \<Rightarrow> (string \<times> json) list" where
  "error_details (HttpError _ _ _ d _) = d"
| "error_details (JsError _) = []"

fun error_headers :: "exn \<Rightarrow> (string \<times> string) list" where
  "error_headers (HttpError _ _ _ _ h) = h"
| "error_headers (JsError _) = []"

section \<open>types.ts\<close>

definition SCHEMA_VERSION :: int where
  "SCHEMA_VERSION = 1"

definition UID :: string where
  "UID = ''lmv-v1''"

datatype op_name = Add | Remove | Replace | Move | Copy | Test

datatype auth_mode = AuthNone | AuthToken

record operation =
  op_name :: op_name
  op_path :: string
  op_from :: "string option"
  op_value :: "json option"

record memory_state =
  version :: int
  blocks :: json
  updated_at :: string

record vault_snapshot =
  uid :: string
  schema_version :: int
  memory :: memory_state
  snapshot_cursor :: int
  snap_updated_at :: string

record ledger_entry =
  cursor :: int
  ts :: string
  actor :: string
  base_version :: int
  new_version :: int
  reason :: string
  auth :: "auth_mode option"
  patch :: "operation list"
  prev_hash :: string
  entry_hash :: string

record current_state =
  cs_memory :: memory_state
  cs_snapshot_cursor :: int
  cs_ledger_cursor :: int

text \<open>
  TypeScript interfaces are erased at run time: a typed value is the JSON object with
  the same members. The \<open>json_of_\<close> functions give that object, with absent optional
  members left out and the members in the order the code builds them.
\<close>

fun op_name_string :: "op_name \<Rightarrow> string" where
  "op_name_string Add = ''add''"
| "op_name_string Remove = ''remove''"
| "op_name_string Replace = ''replace''"
| "op_name_string Move = ''move''"
| "op_name_string Copy = ''copy''"
| "op_name_string Test = ''test''"

fun auth_string :: "auth_mode \<Rightarrow> string" where
  "auth_string AuthNone = ''none''"
| "auth_string AuthToken = ''token''"

definition optional_member :: "string \<Rightarrow> json option \<Rightarrow> (string \<times> json) list" where
  "optional_member k v = (case v of None \<Rightarrow> [] | Some j \<Rightarrow> [(k, j)])"

definition json_of_operation :: "operation \<Rightarrow> json" where
  "json_of_operation x =
     JObj ([(''op'', JStr (op_name_string (op_name x))), (''path'', JStr (op_path x))]
           @ optional_member ''from'' (map_option JStr (op_from x))
           @ optional_member ''value'' (op_value x))"

definition json_of_patch :: "operation list \<Rightarrow> json" where
  "json_of_patch ops = JArr (map json_of_operation ops)"

definition json_of_memory :: "memory_state \<Rightarrow> json" where
  "json_of_memory m =
     JObj [(''version'', JNum (version m)), (''blocks'', blocks m),
           (''updated_at'', JStr (updated_at m))]"

definition json_of_snapshot :: "vault_snapshot \<Rightarrow> json" where
  "json_of_snapshot s =
     JObj [(''uid'', JStr (uid s)), (''schema_version'', JNum (schema_version s)),
           (''memory'', json_of_memory (memory s)),
           (''snapshot_cursor'', JNum (snapshot_cursor s)),
           (''updated_at'', JStr (snap_updated_at s))]"

text \<open>
  The entry object as \<^verbatim>\<open>patchMemory\<close> builds it: \<^verbatim>\<open>entryBase\<close> (cursor, ts,
  actor, base_version, new_version, reason, auth, patch, prev_hash) followed by
  \<^verbatim>\<open>entry_hash\<close>.
\<close>

definition entryBase_members :: "ledger_entry \<Rightarrow> (string \<times> json) list" where
  "entryBase_members e =
     [(''cursor'', JNum (cursor e)), (''ts'', JStr (ts e)), (''actor'', JStr (actor e)),
      (''base_version'', JNum (base_version e)), (''new_version'', JNum (new_version e)),
      (''reason'', JStr (reason e))]
     @ optional_member ''auth'' (map_option (JStr \<circ> auth_string) (auth e))
     @ [(''patch'', json_of_patch (patch e)), (''prev_hash'', JStr (prev_hash e))]"

definition json_of_entry :: "ledger_entry \<Rightarrow> json" where
  "json_of_entry e = JObj (entryBase_members e @ [(''entry_hash'', JStr (entry_hash e))])"

section \<open>schema.ts\<close>

text \<open>
  The schemas are written with the zod library. An object schema takes the members it
  names from the input (an absent member is \<^verbatim>\<open>undefined\<close>), validates each, and
  returns a new object with the named members in the order of the schema; members it
  does not name are dropped, or kept after the named ones under
  \<^verbatim>\<open>passthrough()\<close>. \<^verbatim>\<open>z.string().datetime()\<close> is the library's own
  predicate and is a parameter (\<open>isDatetime\<close>).
\<close>

definition get_int :: "(string \<times> json) list \<Rightarrow> string \<Rightarrow> int option" where
  "get_int kvs k = (case map_of kvs k of Some (JNum n) \<Rightarrow> Some n | _ \<Rightarrow> None)"

definition get_str :: "(string \<times> json) list \<Rightarrow> string \<Rightarrow> string option" where
  "get_str kvs k = (case map_of kvs k of Some (JStr s) \<Rightarrow> Some s | _ \<Rightarrow> None)"

definition op_name_of_string :: "string \<Rightarrow> op_name option" where
  "op_name_of_string s =
     (if s = ''add'' then Some Add
      else if s = ''remove'' then Some Remove
      else if s = ''replace'' then Some Replace
      else if s = ''move'' then Some Move
      else if s = ''copy'' then Some Copy
      else if s = ''test'' then Some Test
      else None)"

definition auth_of_string :: "string \<Rightarrow> auth_mode option" where
  "auth_of_string s =
     (if s = ''none'' then Some AuthNone
      else if s = ''token'' then Some AuthToken
      else None)"

text \<open>
  \<^verbatim>\<open>jsonPatchOperationSchema\<close>: \<^verbatim>\<open>op\<close> one of the six names, \<^verbatim>\<open>path\<close> a
  non-empty string, \<^verbatim>\<open>from\<close> an optional non-empty string, \<^verbatim>\<open>value\<close> anything;
  then the refinement: move and copy need \<^verbatim>\<open>from\<close>, add, replace and test need a
  \<^verbatim>\<open>value\<close> member.
\<close>

definition optional_from :: "(string \<times> json) list \<Rightarrow> string option option" where
  "optional_from kvs =
     (case map_of kvs ''from'' of
        None \<Rightarrow> Some None
      | Some (JStr f) \<Rightarrow> (if f = [] then None else Some (Some f))
      | Some _ \<Rightarrow> None)"

definition superRefine_ok :: "operation \<Rightarrow> bool" where
  "superRefine_ok item =
     (\<not> ((op_name item = Move \<or> op_name item = Copy) \<and> op_from item = None)
      \<and> \<not> ((op_name item = Add \<or> op_name item = Replace \<or> op_name item = Test)
             \<and> op_value item = None))"

fun jsonPatchOperationSchema :: "json \<Rightarrow> operation option" where
  "jsonPatchOperationSchema (JObj kvs) =
     (case Option.bind (get_str kvs ''op'') op_name_of_string of
        None \<Rightarrow> None
      | Some k \<Rightarrow>
          (case get_str kvs ''path'' of
             None \<Rightarrow> None
           | Some p \<Rightarrow>
               (if p = [] then None
                else (case optional_from kvs of
                        None \<Rightarrow> None
                      | Some f \<Rightarrow>
                          (let item = \<lparr>op_name = k, op_path = p, op_from = f,
                                       op_value = map_of kvs ''value''\<rparr>
                           in if superRefine_ok item then Some item else None)))))"
| "jsonPatchOperationSchema _ = None"

fun jsonPatchSchema :: "json \<Rightarrow> operation list option" where
  "jsonPatchSchema (JArr xs) = those (map jsonPatchOperationSchema xs)"
| "jsonPatchSchema _ = None"

definition blocks_shape :: "string list" where
  "blocks_shape = [''identity'', ''methodology'', ''projects'', ''rules'']"

text \<open>
  \<^verbatim>\<open>blocksSchema\<close>: an object; the four named members are \<^verbatim>\<open>z.unknown()\<close>, which
  accepts every value, \<^verbatim>\<open>undefined\<close> included, so an absent member stays absent;
  other members pass through.
\<close>

fun blocksSchema :: "json \<Rightarrow> json option" where
  "blocksSchema (JObj kvs) =
     Some (JObj (concat (map (\<lambda>k. optional_member k (map_of kvs k)) blocks_shape)
                 @ filter (\<lambda>(k, v). k \<notin> set blocks_shape) kvs))"
| "blocksSchema _ = None"

fun memorySchema :: "(string \<Rightarrow> bool) \<Rightarrow> json \<Rightarrow> memory_state option" where
  "memorySchema dt (JObj kvs) =
     (case get_int kvs ''version'' of
        None \<Rightarrow> None
      | Some v \<Rightarrow>
          (case Option.bind (map_of kvs ''blocks'') blocksSchema of
             None \<Rightarrow> None
           | Some b \<Rightarrow>
               (case get_str kvs ''updated_at'' of
                  None \<Rightarrow> None
                | Some u \<Rightarrow>
                    (if 0 \<le> v \<and> dt u
                     then Some \<lparr>version = v, blocks = b, updated_at = u\<rparr>
                     else None))))"
| "memorySchema dt _ = None"

fun vaultSnapshotSchema :: "(string \<Rightarrow> bool) \<Rightarrow> json \<Rightarrow> vault_snapshot option" where
  "vaultSnapshotSchema dt (JObj kvs) =
     (case get_str kvs ''uid'' of
        None \<Rightarrow> None
      | Some i \<Rightarrow>
          (case get_int kvs ''schema_version'' of
             None \<Rightarrow> None
           | Some sv \<Rightarrow>
               (case Option.bind (map_of kvs ''memory'') (memorySchema dt) of
                  None \<Rightarrow> None
                | Some m \<Rightarrow>
                    (case get_int kvs ''snapshot_cursor'' of
                       None \<Rightarrow> None
                     | Some c \<Rightarrow>
                         (case get_str kvs ''updated_at'' of
                            None \<Rightarrow> None
                          | Some u \<Rightarrow>
                              (if i \<noteq> [] \<and> 0 < sv \<and> 0 \<le> c \<and> dt u
                               then Some \<lparr>uid = i, schema_version = sv, memory = m,
                                          snapshot_cursor = c, snap_updated_at = u\<rparr>
                               else None))))))"
| "vaultSnapshotSchema dt _ = None"

definition optional_auth :: "(string \<times> json) list \<Rightarrow> auth_mode option option" where
  "optional_auth kvs =
     (case map_of kvs ''auth'' of
        None \<Rightarrow> Some None
      | Some (JStr a) \<Rightarrow> map_option Some (auth_of_string a)
      | Some _ \<Rightarrow> None)"

record entry_head =
  h_cursor :: int
  h_ts :: string
  h_actor :: string
  h_base_version :: int
  h_new_version :: int
  h_reason :: string

definition entry_head_schema :: "(string \<Rightarrow> bool) \<Rightarrow> (string \<times> json) list \<Rightarrow> entry_head option" where
  "entry_head_schema dt kvs =
     (case get_int kvs ''cursor'' of
        None \<Rightarrow> None
      | Some c \<Rightarrow>
          (case get_str kvs ''ts'' of
             None \<Rightarrow> None
           | Some t \<Rightarrow>
               (case get_str kvs ''actor'' of
                  None \<Rightarrow> None
                | Some a \<Rightarrow>
                    (case get_int kvs ''base_version'' of
                       None \<Rightarrow> None
                     | Some bv \<Rightarrow>
                         (case get_int kvs ''new_version'' of
                            None \<Rightarrow> None
                          | Some nv \<Rightarrow>
                              (case get_str kvs ''reason'' of
                                 None \<Rightarrow> None
                               | Some r \<Rightarrow>
                                   (if 0 < c \<and> dt t \<and> a \<noteq> [] \<and> 0 \<le> bv \<and> 0 \<le> nv \<and> r \<noteq> []
                                    then Some \<lparr>h_cursor = c, h_ts = t, h_actor = a,
                                               h_base_version = bv, h_new_version = nv,
                                               h_reason = r\<rparr>
                                    else None)))))))"

text \<open>
  \<^verbatim>\<open>ledgerEntrySchema\<close>: cursor a positive integer, ts a datetime, actor and reason
  non-empty strings, base_version and new_version non-negative integers, auth optional
  (\<^verbatim>\<open>none\<close> or \<^verbatim>\<open>token\<close>), patch a JSON-Patch sequence, prev_hash and entry_hash
  strings. (The first six members are checked by \<open>entry_head_schema\<close>.)
\<close>

fun ledgerEntrySchema :: "(string \<Rightarrow> bool) \<Rightarrow> json \<Rightarrow> ledger_entry option" where
  "ledgerEntrySchema dt (JObj kvs) =
     (case entry_head_schema dt kvs of
        None \<Rightarrow> None
      | Some h \<Rightarrow>
          (case optional_auth kvs of
             None \<Rightarrow> None
           | Some au \<Rightarrow>
               (case Option.bind (map_of kvs ''patch'') jsonPatchSchema of
                  None \<Rightarrow> None
                | Some ops \<Rightarrow>
                    (case get_str kvs ''prev_hash'' of
                       None \<Rightarrow> None
                     | Some ph \<Rightarrow>
                         (case get_str kvs ''entry_hash'' of
                            None \<Rightarrow> None
                          | Some eh \<Rightarrow>
                              Some \<lparr>cursor = h_cursor h, ts = h_ts h, actor = h_actor h,
                                    base_version = h_base_version h,
                                    new_version = h_new_version h, reason = h_reason h,
                                    auth = au, patch = ops, prev_hash = ph,
                                    entry_hash = eh\<rparr>)))))"
| "ledgerEntrySchema dt _ = None"

section \<open>Functions taken as parameters\<close>

text \<open>
  Three functions of libraries outside the repository: Node's SHA-256 (as lowercase
  hex of the UTF-8 bytes), \<^verbatim>\<open>applyPatch(document, patch, true, false).newDocument\<close>
  of fast-json-patch (\<open>None\<close> when it throws), and zod's datetime predicate. The
  fourth is the text JavaScript gives a number beyond the integers every one of which
  is a double (the shortest digits that read back as the same double, in exponent
  notation from \<open>10^21\<close> on). The theorems hold for every choice of them.
\<close>

record platform =
  sha256Hex :: "string \<Rightarrow> string"
  applyPatch :: "json \<Rightarrow> operation list \<Rightarrow> json option"
  isDatetime :: "string \<Rightarrow> bool"
  doubleToString :: "int \<Rightarrow> string"

section \<open>crypto.ts\<close>

text \<open>
  The cryptography is modelled symbolically. The record key derived by scrypt and HKDF
  from a passphrase, a salt and an info string is the triple of the three. The output
  of AES-256-GCM (ciphertext and tag) is a sealed box that records the key, the IV, the
  AAD context and the payload; it opens only under the same key and IV and the same AAD
  bytes. Buffers are strings and base64 is left implicit.

  \<^verbatim>\<open>JSON.parse\<close> is not run on characters: the box hands back the values whose
  \<^verbatim>\<open>JSON.stringify\<close> texts were sealed (the payload) and bound (the AAD context).
\<close>

datatype hkdf_info = InfoVault | InfoLedger

datatype record_key = RecordKey string string hkdf_info

datatype gcm_box = GcmBox record_key string json json

record envelope =
  salt_b64 :: string
  info :: hkdf_info
  iv_b64 :: string
  aad_b64 :: string
  sealed :: gcm_box

definition deriveRecordKey :: "string \<Rightarrow> string \<Rightarrow> hkdf_info \<Rightarrow> record_key" where
  "deriveRecordKey passphrase salt i = RecordKey passphrase salt i"

definition aadToBuffer :: "json \<Rightarrow> string" where
  "aadToBuffer context = JSON_stringify context"

fun gcm_open :: "record_key \<Rightarrow> string \<Rightarrow> string \<Rightarrow> gcm_box \<Rightarrow> (json \<times> json) option" where
  "gcm_open k iv aad (GcmBox k' iv' context payload) =
     (if k' = k \<and> iv' = iv \<and> aadToBuffer context = aad then Some (payload, context) else None)"

definition encryptEnvelope ::
  "json \<Rightarrow> string \<Rightarrow> hkdf_info \<Rightarrow> json \<Rightarrow> string \<Rightarrow> string \<Rightarrow> envelope" where
  "encryptEnvelope payload passphrase i aadContext salt iv =
     (let k = deriveRecordKey passphrase salt i;
          aad = aadToBuffer aadContext
      in \<lparr>salt_b64 = salt, info = i, iv_b64 = iv, aad_b64 = aad,
          sealed = GcmBox k iv aadContext payload\<rparr>)"

text \<open>
  What \<^verbatim>\<open>JSON.parse\<close> makes of a stored text: nothing (\<open>NotJson\<close>), a value that
  \<^verbatim>\<open>envelopeSchema\<close> rejects (\<open>NotEnvelope\<close>), or an envelope.
\<close>

datatype parsed_json = NotEnvelope | EnvelopeJson envelope

datatype raw_text = NotJson | JsonText parsed_json

fun envelopeSchema :: "parsed_json \<Rightarrow> envelope option" where
  "envelopeSchema NotEnvelope = None"
| "envelopeSchema (EnvelopeJson e) = Some e"

definition decryptEnvelope :: "parsed_json \<Rightarrow> string \<Rightarrow> hkdf_info \<Rightarrow> exn + (json \<times> json)" where
  "decryptEnvelope rawEnvelope passphrase expectedInfo =
     (case envelopeSchema rawEnvelope of
        None \<Rightarrow> Inl (SchemaValidationError ''Invalid envelope format'')
      | Some e \<Rightarrow>
          (if info e \<noteq> expectedInfo
           then Inl (StorageCorruptionError ''Envelope hkdf.info mismatch'')
           else (let k = deriveRecordKey passphrase (salt_b64 e) (info e)
                 in case gcm_open k (iv_b64 e) (aad_b64 e) (sealed e) of
                      None \<Rightarrow> Inl (StorageCorruptionError ''Failed to decrypt envelope'')
                    | Some (payload, aad) \<Rightarrow> Inr (payload, aad))))"

section \<open>storage.ts\<close>

subsection \<open>The data directory and the effects on it\<close>

text \<open>
  The three files of the data directory, each absent or present. The journal file is
  the list of its non-blank lines (what \<^verbatim>\<open>raw.split(/\r?\n/).filter(...)\<close> yields),
  together with \<open>ledger_open_tail\<close>: whether the last of these lines lacks its line
  feed, so that what is appended next continues that line. The metadata file is
  represented by its \<^verbatim>\<open>updated_at\<close> (its other members are constants).

  \<open>events\<close> records, in order, the calls that change the directory and the taking and
  releasing of the instance's lock.
\<close>

datatype file_id = VaultEnc | LedgerEnc | MetaJson | OtherFile string

datatype event =
    LockAcquired
  | LockReleased
  | Mkdir
  | WriteFile file_id
  | AppendLine file_id
  | Fsync file_id
  | Rename file_id file_id

record world =
  vault_file :: "raw_text option"
  ledger_file :: "raw_text list option"
  ledger_open_tail :: bool
  meta_file :: "string option"
  events :: "event list"

definition emit :: "event \<Rightarrow> world \<Rightarrow> world" where
  "emit e w = w\<lparr>events := events w @ [e]\<rparr>"

text \<open>
  What the file system does with the four calls of \<^verbatim>\<open>appendLedgerEntry\<close>
  (\<^verbatim>\<open>open\<close>, \<^verbatim>\<open>write\<close>, \<^verbatim>\<open>sync\<close>, \<^verbatim>\<open>close\<close>): how much of the line
  \<^verbatim>\<open>write\<close> puts into the file (a \<^verbatim>\<open>write\<close> may put less than it was given,
  whether it then rejects or resolves), and which call, if any, rejects. The other
  file-system calls of the engine are taken to succeed, but for reading a file that is
  absent.
\<close>

datatype written = WroteNothing | WrotePart | WroteAllButLF | WroteLine

datatype fs_call = FsOpen | FsWrite | FsSync | FsClose

text \<open>
  The readings an operation takes from its environment: from the clock
  (\<^verbatim>\<open>nowIso()\<close>) and from \<^verbatim>\<open>randomBytes\<close> three timestamps, a salt and an IV for
  \<^verbatim>\<open>ensureDataFiles\<close> (used only when it has to create a file), and a timestamp, a
  salt and an IV for the operation itself; and the outcome of the append, should the
  operation come to it.
\<close>

record readings =
  t_memory :: string
  t_snapshot :: string
  t_meta :: string
  salt0 :: string
  iv0 :: string
  t_now :: string
  salt1 :: string
  iv1 :: string
  append_written :: written
  append_rejects :: "fs_call option"

subsection \<open>Helpers\<close>

text \<open>\<^verbatim>\<open>clone\<close> is \<^verbatim>\<open>JSON.parse(JSON.stringify(value))\<close>: the identity on JSON values.\<close>

definition clone :: "'a \<Rightarrow> 'a" where
  "clone v = v"

text \<open>
  The white space and line terminators of ECMA-262 among the 8-bit characters: the
  characters \<^verbatim>\<open>trim\<close> strips and \<^verbatim>\<open>\s\<close> matches.
\<close>

definition is_js_space :: "char \<Rightarrow> bool" where
  "is_js_space c =
     List.member [CHR 0x09, CHR 0x0A, CHR 0x0B, CHR 0x0C, CHR 0x0D, CHR 0x20, CHR 0xA0] c"

definition trim :: "string \<Rightarrow> string" where
  "trim s = rev (dropWhile is_js_space (rev (dropWhile is_js_space s)))"

text \<open>
  \<^verbatim>\<open>Number.parseInt(m[1], 10)\<close> on a non-empty string of decimal digits: the double
  nearest to the integer the digits denote, \<^verbatim>\<open>Infinity\<close> when that integer is beyond
  the doubles.
\<close>

definition parseInt :: "string \<Rightarrow> number" where
  "parseInt ds = to_number (decimal_value ds)"

text \<open>\<^verbatim>\<open>/^"v(\d+)"$/.exec(ifMatch.trim())\<close>.\<close>

definition parseIfMatch :: "string \<Rightarrow> number option" where
  "parseIfMatch ifMatch =
     (case trim ifMatch of
        q # v # rest \<Rightarrow>
          (if q = CHR 0x22 \<and> v = CHR ''v'' \<and> rest \<noteq> [] \<and> last rest = CHR 0x22
               \<and> butlast rest \<noteq> [] \<and> list_all is_digit (butlast rest)
           then Some (parseInt (butlast rest))
           else None)
      | _ \<Rightarrow> None)"

text \<open>
  The text of a number in a template literal: the decimal numeral for an integer of
  magnitude up to \<open>2^53\<close>.
\<close>

definition Number_toString :: "platform \<Rightarrow> int \<Rightarrow> string" where
  "Number_toString p n =
     (if - (2 ^ 53) \<le> n \<and> n \<le> 2 ^ 53 then string_of_int n else doubleToString p n)"

definition etagForVersion :: "platform \<Rightarrow> int \<Rightarrow> string" where
  "etagForVersion p v = CHR 0x22 # CHR ''v'' # Number_toString p v @ [CHR 0x22]"

definition emptyMemory :: "string \<Rightarrow> memory_state" where
  "emptyMemory now =
     \<lparr>version = 0,
      blocks = JObj [(''identity'', JObj []), (''methodology'', JObj []),
                     (''projects'', JObj []), (''rules'', JObj [])],
      updated_at = now\<rparr>"

record patch_input =
  ifMatchHeader :: string
  input_patch :: json
  input_actor :: string
  input_reason :: string
  input_auth :: auth_mode

record patch_result =
  state :: current_state
  applied_entry_cursor :: int

subsection \<open>AAD contexts\<close>

definition vaultAAD :: "vault_snapshot \<Rightarrow> json" where
  "vaultAAD s =
     JObj [(''record_type'', JStr ''vault''), (''uid'', JStr (uid s)),
           (''schema_version'', JNum (schema_version s)),
           (''vault_version'', JNum (version (memory s)))]"

definition ledgerAAD :: "ledger_entry \<Rightarrow> json" where
  "ledgerAAD e =
     JObj [(''record_type'', JStr ''ledger_entry''), (''uid'', JStr UID),
           (''schema_version'', JNum SCHEMA_VERSION),
           (''entry_cursor'', JNum (cursor e))]"

subsection \<open>Snapshot file\<close>

definition readVault :: "platform \<Rightarrow> string \<Rightarrow> world \<Rightarrow> exn + vault_snapshot" where
  "readVault p passphrase w =
     (case vault_file w of
        None \<Rightarrow> Inl (JsError ''ENOENT'')
      | Some NotJson \<Rightarrow> Inl (StorageCorruptionError ''vault.enc is not valid JSON'')
      | Some (JsonText parsed) \<Rightarrow>
          (case decryptEnvelope parsed passphrase InfoVault of
             Inl e \<Rightarrow> Inl e
           | Inr (payload, aad) \<Rightarrow>
               (case vaultSnapshotSchema (isDatetime p) payload of
                  None \<Rightarrow> Inl (StorageCorruptionError ''Vault payload schema mismatch'')
                | Some s \<Rightarrow>
                    (if JSON_stringify (vaultAAD s) \<noteq> JSON_stringify aad
                     then Inl (StorageCorruptionError ''Vault AAD context mismatch'')
                     else Inr s))))"

text \<open>
  \<^verbatim>\<open>writeVault\<close>: validate, encrypt, and one \<^verbatim>\<open>fs.writeFile\<close> on the path of
  \<^verbatim>\<open>vault.enc\<close>.
\<close>

definition writeVault ::
  "platform \<Rightarrow> string \<Rightarrow> string \<Rightarrow> string \<Rightarrow> vault_snapshot \<Rightarrow> world \<Rightarrow> world \<times> (exn + unit)" where
  "writeVault p passphrase salt iv s w =
     (case vaultSnapshotSchema (isDatetime p) (json_of_snapshot s) of
        None \<Rightarrow> (w, Inl (SchemaValidationError ''Invalid vault snapshot schema''))
      | Some validated \<Rightarrow>
          (let e = encryptEnvelope (json_of_snapshot validated) passphrase InfoVault
                     (vaultAAD validated) salt iv
           in (emit (WriteFile VaultEnc) (w\<lparr>vault_file := Some (JsonText (EnvelopeJson e))\<rparr>),
               Inr ())))"

text \<open>\<^verbatim>\<open>writeMeta\<close> of the default metadata: the schema checks \<^verbatim>\<open>updated_at\<close>.\<close>

definition writeMeta :: "platform \<Rightarrow> string \<Rightarrow> world \<Rightarrow> world \<times> (exn + unit)" where
  "writeMeta p meta_updated_at w =
     (if \<not> isDatetime p meta_updated_at
      then (w, Inl (SchemaValidationError ''Invalid meta.json schema''))
      else (emit (WriteFile MetaJson) (w\<lparr>meta_file := Some meta_updated_at\<rparr>), Inr ()))"

definition ensureMetaFile :: "platform \<Rightarrow> readings \<Rightarrow> world \<Rightarrow> world \<times> (exn + unit)" where
  "ensureMetaFile p rd w =
     (if meta_file w = None then writeMeta p (t_meta rd) w else (w, Inr ()))"

definition ensureDataFiles ::
  "platform \<Rightarrow> string \<Rightarrow> readings \<Rightarrow> world \<Rightarrow> world \<times> (exn + unit)" where
  "ensureDataFiles p passphrase rd w =
     (let w1 = emit Mkdir w;
          (w2, r2) =
            (if vault_file w1 = None
             then writeVault p passphrase (salt0 rd) (iv0 rd)
                    \<lparr>uid = UID, schema_version = SCHEMA_VERSION,
                     memory = emptyMemory (t_memory rd), snapshot_cursor = 0,
                     snap_updated_at = t_snapshot rd\<rparr> w1
             else (w1, Inr ()))
      in case r2 of
           Inl e \<Rightarrow> (w2, Inl e)
         | Inr _ \<Rightarrow>
             (let w3 = (if ledger_file w2 = None
                        then emit (WriteFile LedgerEnc) (w2\<lparr>ledger_file := Some []\<rparr>)
                        else w2)
              in ensureMetaFile p rd w3))"

subsection \<open>Journal file\<close>

definition computeEntryHash :: "platform \<Rightarrow> json \<Rightarrow> string" where
  "computeEntryHash p e = sha256Hex p (canonicalJson e)"

definition decodeLine :: "platform \<Rightarrow> string \<Rightarrow> raw_text \<Rightarrow> exn + ledger_entry" where
  "decodeLine p passphrase line =
     (case line of
        NotJson \<Rightarrow> Inl (JsError ''SyntaxError'')
      | JsonText envelopeRaw \<Rightarrow>
          (case decryptEnvelope envelopeRaw passphrase InfoLedger of
             Inl e \<Rightarrow> Inl e
           | Inr (payload, aad) \<Rightarrow>
               (case ledgerEntrySchema (isDatetime p) payload of
                  None \<Rightarrow> Inl (StorageCorruptionError ''Ledger entry schema mismatch'')
                | Some entry \<Rightarrow>
                    (if JSON_stringify (ledgerAAD entry) \<noteq> JSON_stringify aad
                     then Inl (StorageCorruptionError ''Ledger AAD context mismatch'')
                     else Inr entry))))"

text \<open>
  The first loop of \<^verbatim>\<open>readLedgerEntries\<close>: a line that fails is the end of the
  journal when it is the last line (\<^verbatim>\<open>i === lines.length - 1\<close>); otherwise the
  failure is thrown as a \<^verbatim>\<open>StorageCorruptionError\<close> (itself, or wrapped).
\<close>

fun decodeLines :: "platform \<Rightarrow> string \<Rightarrow> raw_text list \<Rightarrow> exn + ledger_entry list" where
  "decodeLines p passphrase [] = Inr []"
| "decodeLines p passphrase (line # rest) =
     (case decodeLine p passphrase line of
        Inl err \<Rightarrow>
          (if rest = [] then Inr []
           else if is_StorageCorruptionError err then Inl err
           else Inl (StorageCorruptionError ''Failed to parse/decrypt ledger entry''))
      | Inr entry \<Rightarrow>
          (case decodeLines p passphrase rest of
             Inl err \<Rightarrow> Inl err
           | Inr entries \<Rightarrow> Inr (entry # entries)))"

text \<open>
  The object hashed on reading: the members of the entry but \<^verbatim>\<open>entry_hash\<close>, with
  \<^verbatim>\<open>auth\<close> added last when the entry has it.
\<close>

definition hashInput :: "ledger_entry \<Rightarrow> json" where
  "hashInput e =
     JObj ([(''cursor'', JNum (cursor e)), (''ts'', JStr (ts e)), (''actor'', JStr (actor e)),
            (''base_version'', JNum (base_version e)), (''new_version'', JNum (new_version e)),
            (''reason'', JStr (reason e)), (''patch'', json_of_patch (patch e)),
            (''prev_hash'', JStr (prev_hash e))]
           @ optional_member ''auth'' (map_option (JStr \<circ> auth_string) (auth e)))"

text \<open>The second loop: cursors dense from 1, the hash chain, the recomputed hashes.\<close>

fun verifyChain :: "platform \<Rightarrow> string \<Rightarrow> int \<Rightarrow> ledger_entry list \<Rightarrow> exn option" where
  "verifyChain p previousHash i [] = None"
| "verifyChain p previousHash i (entry # rest) =
     (if cursor entry \<noteq> i + 1
      then Some (StorageCorruptionError ''Ledger cursor is not contiguous'')
      else if prev_hash entry \<noteq> previousHash
      then Some (StorageCorruptionError ''Ledger hash chain broken at prev_hash'')
      else if computeEntryHash p (hashInput entry) \<noteq> entry_hash entry
      then Some (StorageCorruptionError ''Ledger hash chain broken at entry_hash'')
      else verifyChain p (entry_hash entry) (i + 1) rest)"

definition readLedgerEntries :: "platform \<Rightarrow> string \<Rightarrow> world \<Rightarrow> exn + ledger_entry list" where
  "readLedgerEntries p passphrase w =
     (case ledger_file w of
        None \<Rightarrow> Inl (JsError ''ENOENT'')
      | Some lines \<Rightarrow>
          (case decodeLines p passphrase lines of
             Inl e \<Rightarrow> Inl e
           | Inr entries \<Rightarrow>
               (case verifyChain p [] 0 entries of
                  Some e \<Rightarrow> Inl e
                | None \<Rightarrow> Inr entries)))"

text \<open>
  \<^verbatim>\<open>handle.write\<close> on a file opened for appending. What is written goes to the end
  of the file: after a last line that lacks its line feed it continues that line. Such
  a line is what an earlier append left, an envelope or the beginning of one, and with
  more text after it the line is not a JSON text. Part of the new line is not a JSON
  text either; all of it but the line feed is the new line, left open.
\<close>

definition put_line :: "raw_text \<Rightarrow> world \<Rightarrow> world" where
  "put_line line w =
     (let lines = (case ledger_file w of None \<Rightarrow> [] | Some ls \<Rightarrow> ls)
      in if ledger_open_tail w \<and> lines \<noteq> []
         then w\<lparr>ledger_file := Some (butlast lines @ [NotJson])\<rparr>
         else w\<lparr>ledger_file := Some (lines @ [line])\<rparr>)"

fun handle_write :: "written \<Rightarrow> raw_text \<Rightarrow> world \<Rightarrow> world" where
  "handle_write WroteNothing line w = w"
| "handle_write WrotePart line w =
     emit (AppendLine LedgerEnc) ((put_line NotJson w)\<lparr>ledger_open_tail := True\<rparr>)"
| "handle_write WroteAllButLF line w =
     emit (AppendLine LedgerEnc) ((put_line line w)\<lparr>ledger_open_tail := True\<rparr>)"
| "handle_write WroteLine line w =
     emit (AppendLine LedgerEnc) ((put_line line w)\<lparr>ledger_open_tail := False\<rparr>)"

text \<open>
  \<^verbatim>\<open>appendLedgerEntry\<close>: encrypt, open for append (which creates a missing file),
  write the line, sync, and close in the \<^verbatim>\<open>finally\<close>. A call that rejects ends the
  function with that error; what \<^verbatim>\<open>write\<close> has put into the file stays there.
\<close>

definition appendLedgerEntry ::
  "string \<Rightarrow> readings \<Rightarrow> ledger_entry \<Rightarrow> world \<Rightarrow> world \<times> (exn + unit)" where
  "appendLedgerEntry passphrase rd entry w =
     (let e = encryptEnvelope (json_of_entry entry) passphrase InfoLedger (ledgerAAD entry)
                (salt1 rd) (iv1 rd)
      in if append_rejects rd = Some FsOpen then (w, Inl (JsError ''open''))
         else
     (let w1 = (if ledger_file w = None then w\<lparr>ledger_file := Some []\<rparr> else w);
          w2 = handle_write (append_written rd) (JsonText (EnvelopeJson e)) w1
      in if append_rejects rd = Some FsWrite then (w2, Inl (JsError ''write''))
         else if append_rejects rd = Some FsSync then (w2, Inl (JsError ''fsync''))
         else if append_rejects rd = Some FsClose
         then (emit (Fsync LedgerEnc) w2, Inl (JsError ''close''))
         else (emit (Fsync LedgerEnc) w2, Inr ())))"

subsection \<open>Replay\<close>

fun replayLoop ::
  "platform \<Rightarrow> int \<Rightarrow> memory_state \<Rightarrow> ledger_entry list \<Rightarrow> exn + memory_state" where
  "replayLoop p sc m [] = Inr m"
| "replayLoop p sc m (entry # rest) =
     (if cursor entry \<le> sc then replayLoop p sc m rest
      else if base_version entry \<noteq> version m
      then Inl (StorageCorruptionError ''Ledger base_version mismatch'')
      else (case applyPatch p (clone (blocks m)) (patch entry) of
              None \<Rightarrow> Inl (JsError ''JsonPatchError'')
            | Some newDocument \<Rightarrow>
                (let m1 = m\<lparr>blocks := newDocument, version := new_version entry,
                            updated_at := ts entry\<rparr>
                 in case memorySchema (isDatetime p) (json_of_memory m1) of
                      None \<Rightarrow> Inl (StorageCorruptionError ''Memory invalid after ledger replay'')
                    | Some validatedMemory \<Rightarrow>
                        replayLoop p sc (m1\<lparr>blocks := blocks validatedMemory\<rparr>) rest)))"

definition replayLedger ::
  "platform \<Rightarrow> vault_snapshot \<Rightarrow> ledger_entry list \<Rightarrow> exn + current_state" where
  "replayLedger p s entries =
     (if snapshot_cursor s > int (length entries)
      then Inl (StorageCorruptionError ''snapshot_cursor is ahead of ledger'')
      else (case replayLoop p (snapshot_cursor s) (clone (memory s)) entries of
              Inl e \<Rightarrow> Inl e
            | Inr m \<Rightarrow>
                Inr \<lparr>cs_memory = m, cs_snapshot_cursor = snapshot_cursor s,
                     cs_ledger_cursor = int (length entries)\<rparr>))"

subsection \<open>The serialization lock\<close>

text \<open>
  \<^verbatim>\<open>withLock\<close> waits for the previous holder, runs the function and releases in a
  \<^verbatim>\<open>finally\<close>. Calls are modelled one at a time, so the lock is free when asked for.
\<close>

definition withLock :: "(world \<Rightarrow> world \<times> (exn + 'a)) \<Rightarrow> world \<Rightarrow> world \<times> (exn + 'a)" where
  "withLock fn w = (let (w', r) = fn (emit LockAcquired w) in (emit LockReleased w', r))"

definition initialize :: "platform \<Rightarrow> string \<Rightarrow> readings \<Rightarrow> world \<Rightarrow> world \<times> (exn + unit)" where
  "initialize p passphrase rd w = withLock (ensureDataFiles p passphrase rd) w"

subsection \<open>State assembly\<close>

definition getCurrentState ::
  "platform \<Rightarrow> string \<Rightarrow> readings \<Rightarrow> world \<Rightarrow> world \<times> (exn + current_state)" where
  "getCurrentState p passphrase rd w =
     (case ensureDataFiles p passphrase rd w of
        (w1, Inl e) \<Rightarrow> (w1, Inl e)
      | (w1, Inr _) \<Rightarrow>
          (case readVault p passphrase w1 of
             Inl e \<Rightarrow> (w1, Inl e)
           | Inr s \<Rightarrow>
               (case readLedgerEntries p passphrase w1 of
                  Inl e \<Rightarrow> (w1, Inl e)
                | Inr entries \<Rightarrow> (w1, replayLedger p s entries))))"

subsection \<open>Patch admission\<close>

fun assertPatchAllowed :: "operation list \<Rightarrow> exn option" where
  "assertPatchAllowed [] = None"
| "assertPatchAllowed (x # rest) =
     (if op_path x = ''/version'' \<or> op_path x = ''/updated_at''
      then Some (PatchApplyError ''Patch cannot modify /version or /updated_at'')
      else assertPatchAllowed rest)"

text \<open>
  The entry built by \<^verbatim>\<open>patchMemory\<close>. \<^verbatim>\<open>entryBase\<close> has no \<^verbatim>\<open>entry_hash\<close>
  member; in the record it is the empty string until the hash of
  \<open>entryBase_members\<close> (which does not read it) is filled in. The sum
  \<^verbatim>\<open>current.memory.version + 1\<close> is a sum of doubles.
\<close>

definition buildEntry ::
  "platform \<Rightarrow> readings \<Rightarrow> patch_input \<Rightarrow> operation list \<Rightarrow> current_state \<Rightarrow> ledger_entry list
     \<Rightarrow> ledger_entry" where
  "buildEntry p rd input parsedPatch current entries =
     (let c = int (length entries) + 1;
          prevHash = (if entries \<noteq> [] then entry_hash (last entries) else []);
          entryBase =
            \<lparr>cursor = c, ts = t_now rd, actor = input_actor input,
             base_version = version (cs_memory current),
             new_version = round_double (version (cs_memory current) + 1),
             reason = input_reason input, auth = Some (input_auth input),
             patch = parsedPatch, prev_hash = prevHash, entry_hash = []\<rparr>;
          entryHash = computeEntryHash p (JObj (entryBase_members entryBase))
      in entryBase\<lparr>entry_hash := entryHash\<rparr>)"

text \<open>The function run under the lock.\<close>

definition patchMemory_locked ::
  "platform \<Rightarrow> string \<Rightarrow> readings \<Rightarrow> patch_input \<Rightarrow> operation list \<Rightarrow> number \<Rightarrow> world
     \<Rightarrow> world \<times> (exn + patch_result)" where
  "patchMemory_locked p passphrase rd input parsedPatch baseVersion w =
     (case ensureDataFiles p passphrase rd w of
        (w1, Inl e) \<Rightarrow> (w1, Inl e)
      | (w1, Inr _) \<Rightarrow>
     (case readVault p passphrase w1 of
        Inl e \<Rightarrow> (w1, Inl e)
      | Inr s \<Rightarrow>
     (case readLedgerEntries p passphrase w1 of
        Inl e \<Rightarrow> (w1, Inl e)
      | Inr entries \<Rightarrow>
     (case replayLedger p s entries of
        Inl e \<Rightarrow> (w1, Inl e)
      | Inr current \<Rightarrow>
     (let currentETag = etagForVersion p (version (cs_memory current)) in
      if baseVersion \<noteq> Num (version (cs_memory current))
      then (w1, Inl (ConflictError ''Version conflict'' currentETag))
      else
     (case applyPatch p (clone (blocks (cs_memory current))) parsedPatch of
        None \<Rightarrow> (w1, Inl (PatchApplyError ''Patch application failed''))
      | Some patchedBlocks \<Rightarrow>
     (case blocksSchema patchedBlocks of
        None \<Rightarrow> (w1, Inl (PatchApplyError ''Patch result violates blocks schema''))
      | Some validatedBlocks \<Rightarrow>
     (let entry = buildEntry p rd input parsedPatch current entries
      in case appendLedgerEntry passphrase rd entry w1 of
           (w2, Inl e) \<Rightarrow> (w2, Inl e)
         | (w2, Inr _) \<Rightarrow>
     (let nextMemory = \<lparr>version = new_version entry, blocks = validatedBlocks,
                        updated_at = ts entry\<rparr>
      in (w2, Inr \<lparr>state = \<lparr>cs_memory = nextMemory,
                              cs_snapshot_cursor = snapshot_cursor s,
                              cs_ledger_cursor = cursor entry\<rparr>,
                     applied_entry_cursor = cursor entry\<rparr>))))))))))"

definition patchMemory ::
  "platform \<Rightarrow> string \<Rightarrow> readings \<Rightarrow> world \<Rightarrow> patch_input \<Rightarrow> world \<times> (exn + patch_result)" where
  "patchMemory p passphrase rd w input =
     (case jsonPatchSchema (input_patch input) of
        None \<Rightarrow> (w, Inl (SchemaValidationError ''Invalid JSON Patch schema''))
      | Some parsedPatch \<Rightarrow>
          (case assertPatchAllowed parsedPatch of
             Some e \<Rightarrow> (w, Inl e)
           | None \<Rightarrow>
               (case parseIfMatch (ifMatchHeader input) of
                  None \<Rightarrow> (w, Inl (SchemaValidationError (''Invalid If-Match. Expected format: '' @ [CHR 0x22] @ ''v{n}'' @ [CHR 0x22])))
                | Some baseVersion \<Rightarrow>
                    withLock (patchMemory_locked p passphrase rd input parsedPatch baseVersion) w)))"

subsection \<open>Compaction\<close>

record snapshot_result =
  r_snapshot_cursor :: int
  r_ledger_cursor :: int
  r_memory_version :: int

definition snapshot_locked ::
  "platform \<Rightarrow> string \<Rightarrow> readings \<Rightarrow> world \<Rightarrow> world \<times> (exn + snapshot_result)" where
  "snapshot_locked p passphrase rd w =
     (case ensureDataFiles p passphrase rd w of
        (w1, Inl e) \<Rightarrow> (w1, Inl e)
      | (w1, Inr _) \<Rightarrow>
     (case readVault p passphrase w1 of
        Inl e \<Rightarrow> (w1, Inl e)
      | Inr s \<Rightarrow>
     (case readLedgerEntries p passphrase w1 of
        Inl e \<Rightarrow> (w1, Inl e)
      | Inr entries \<Rightarrow>
     (case replayLedger p s entries of
        Inl e \<Rightarrow> (w1, Inl e)
      | Inr current \<Rightarrow>
     (if cs_ledger_cursor current \<le> snapshot_cursor s
      then (w1, Inr \<lparr>r_snapshot_cursor = snapshot_cursor s,
                     r_ledger_cursor = cs_ledger_cursor current,
                     r_memory_version = version (cs_memory current)\<rparr>)
      else
     (let nextSnapshot =
            \<lparr>uid = UID, schema_version = SCHEMA_VERSION, memory = cs_memory current,
             snapshot_cursor = cs_ledger_cursor current, snap_updated_at = t_now rd\<rparr>
      in case writeVault p passphrase (salt1 rd) (iv1 rd) nextSnapshot w1 of
           (w2, Inl e) \<Rightarrow> (w2, Inl e)
         | (w2, Inr _) \<Rightarrow>
             (w2, Inr \<lparr>r_snapshot_cursor = snapshot_cursor nextSnapshot,
                       r_ledger_cursor = cs_ledger_cursor current,
                       r_memory_version = version (cs_memory current)\<rparr>)))))))"

definition snapshot ::
  "platform \<Rightarrow> string \<Rightarrow> readings \<Rightarrow> world \<Rightarrow> world \<times> (exn + snapshot_result)" where
  "snapshot p passphrase rd w = withLock (snapshot_locked p passphrase rd) w"

section \<open>server.ts\<close>


record response =
  resp_status :: nat
  resp_headers :: "(string \<times> string) list"
  resp_body :: json








text \<open>\<^verbatim>\<open>setErrorHandler\<close>.\<close>

fun errorHandler :: "exn \<Rightarrow> response" where
  "errorHandler (HttpError c msg code details headers) =
     \<lparr>resp_status = code, resp_headers = headers,
      resp_body = JObj ((''error'', JStr msg) # details)\<rparr>"
| "errorHandler (JsError msg) =
     \<lparr>resp_status = 500, resp_headers = [],
      resp_body = JObj [(''error'', JStr ''Internal server error'')]\<rparr>"


section \<open>Vocabulary of the properties\<close>

text \<open>\<^verbatim>\<open>Object.keys\<close>: the member names of an object, in order.\<close>

fun object_keys :: "json \<Rightarrow> string list" where
  "object_keys (JObj kvs) = map fst kvs"
| "object_keys _ = []"

text \<open>The events an operation added to the log.\<close>

definition new_events :: "world \<Rightarrow> world \<Rightarrow> event list" where
  "new_events w w' = drop (length (events w)) (events w')"

text \<open>
  The events of an operation that writes files only in place: lock handling,
  \<^verbatim>\<open>mkdir\<close> and \<^verbatim>\<open>writeFile\<close> on one of the three files; no append, no
  \<^verbatim>\<open>fsync\<close>, no \<^verbatim>\<open>rename\<close>, no other file.
\<close>

fun is_plain_write :: "event \<Rightarrow> bool" where
  "is_plain_write LockAcquired = True"
| "is_plain_write LockReleased = True"
| "is_plain_write Mkdir = True"
| "is_plain_write (WriteFile f) = (f = VaultEnc \<or> f = LedgerEnc \<or> f = MetaJson)"
| "is_plain_write _ = False"

text \<open>
  Replacing a file atomically: the log holds a rename onto the file and no
  \<^verbatim>\<open>writeFile\<close> on the file itself.
\<close>

fun renames_onto :: "file_id \<Rightarrow> event \<Rightarrow> bool" where
  "renames_onto f (Rename _ target) = (target = f)"
| "renames_onto f _ = False"

definition replaces_atomically :: "file_id \<Rightarrow> event list \<Rightarrow> bool" where
  "replaces_atomically f evs = (list_ex (renames_onto f) evs \<and> \<not> List.member evs (WriteFile f))"

text \<open>The contents of the three files, without the event log.\<close>

definition files :: "world \<Rightarrow> raw_text option \<times> raw_text list option \<times> string option" where
  "files w = (vault_file w, ledger_file w, meta_file w)"

text \<open>The lines of the journal file; none when the file is absent.\<close>

definition journal_lines :: "world \<Rightarrow> raw_text list" where
  "journal_lines w = (case ledger_file w of None \<Rightarrow> [] | Some ls \<Rightarrow> ls)"

text \<open>A line that the first loop of \<^verbatim>\<open>readLedgerEntries\<close> decodes to an entry.\<close>

definition decodes :: "platform \<Rightarrow> string \<Rightarrow> raw_text \<Rightarrow> bool" where
  "decodes p passphrase line = (case decodeLine p passphrase line of Inl _ \<Rightarrow> False | Inr _ \<Rightarrow> True)"

text \<open>
  A memory that \<^verbatim>\<open>memorySchema\<close> accepts and returns as it is: what the schema
  itself returns, and so the memory of every snapshot read and of every replay step.
\<close>

definition memory_ok :: "(string \<Rightarrow> bool) \<Rightarrow> memory_state \<Rightarrow> bool" where
  "memory_ok dt m = (memorySchema dt (json_of_memory m) = Some m)"

text \<open>
  Projections of results: the memory version and entry cursor a successful patch
  returns, and the memory version and ledger cursor of an assembled state.
\<close>

fun patched_version :: "exn + patch_result \<Rightarrow> int option" where
  "patched_version (Inl _) = None"
| "patched_version (Inr res) = Some (version (cs_memory (state res)))"

fun patched_cursor :: "exn + patch_result \<Rightarrow> int option" where
  "patched_cursor (Inl _) = None"
| "patched_cursor (Inr res) = Some (applied_entry_cursor res)"

fun assembled_version :: "exn + current_state \<Rightarrow> int option" where
  "assembled_version (Inl _) = None"
| "assembled_version (Inr st) = Some (version (cs_memory st))"

fun assembled_cursor :: "exn + current_state \<Rightarrow> int option" where
  "assembled_cursor (Inl _) = None"
| "assembled_cursor (Inr st) = Some (cs_ledger_cursor st)"

text \<open>
  A member of the entry object stored in a journal line (the payload sealed in the
  line's envelope), whether or not the entry schema accepts the object.
\<close>

fun stored_member :: "string \<Rightarrow> raw_text \<Rightarrow> json option" where
  "stored_member k (JsonText (EnvelopeJson e)) =
     (case sealed e of
        GcmBox _ _ _ (JObj kvs) \<Rightarrow> map_of kvs k
      | _ \<Rightarrow> None)"
| "stored_member k _ = None"

text \<open>
  The six errors with which \<^verbatim>\<open>patchMemory\<close> refuses a request: an invalid patch, a
  reserved path, a malformed \<^verbatim>\<open>If-Match\<close>, a version conflict, a patch that does not
  apply, and a patched document that is not a blocks object.
\<close>

fun admission_failure :: "exn \<Rightarrow> bool" where
  "admission_failure (HttpError c msg code details headers) =
     ((c = SchemaValidation
         \<and> (msg = ''Invalid JSON Patch schema''
              \<or> msg = ''Invalid If-Match. Expected format: '' @ [CHR 0x22] @ ''v{n}'' @ [CHR 0x22]))
      \<or> c = Conflict
      \<or> (c = PatchApply
            \<and> (msg = ''Patch cannot modify /version or /updated_at''
                 \<or> msg = ''Patch application failed''
                 \<or> msg = ''Patch result violates blocks schema'')))"
| "admission_failure (JsError msg) = False"

text \<open>
  An operation that \<^verbatim>\<open>jsonPatchOperationSchema\<close> returns when given its JSON form.
\<close>

definition operation_ok :: "operation \<Rightarrow> bool" where
  "operation_ok x = (jsonPatchOperationSchema (json_of_operation x) = Some x)"

text \<open>
  The journal line \<^verbatim>\<open>appendLedgerEntry\<close> writes for an entry.
\<close>

definition entry_line :: "string \<Rightarrow> string \<Rightarrow> string \<Rightarrow> ledger_entry \<Rightarrow> raw_text" where
  "entry_line pw salt iv e =
     JsonText (EnvelopeJson (encryptEnvelope (json_of_entry e) pw InfoLedger (ledgerAAD e) salt iv))"

text \<open>
  A call of \<^verbatim>\<open>patchMemory\<close> whose actor and reason are non-empty and whose clock
  reading is a datetime (what \<^verbatim>\<open>ledgerEntrySchema\<close> will ask of the entry), and
  for which \<^verbatim>\<open>handle.write\<close> writes the whole line.
\<close>

fun call_ok :: "platform \<Rightarrow> readings \<times> patch_input \<Rightarrow> bool" where
  "call_ok p (rd, input) =
     (input_actor input \<noteq> [] \<and> input_reason input \<noteq> [] \<and> isDatetime p (t_now rd)
      \<and> append_written rd = WroteLine)"

text \<open>
  A sequence of \<^verbatim>\<open>patchMemory\<close> calls, each with its own readings, all of them
  successful.
\<close>

fun patch_all ::
  "platform \<Rightarrow> string \<Rightarrow> (readings \<times> patch_input) list \<Rightarrow> world \<Rightarrow> world option" where
  "patch_all p passphrase [] w = Some w"
| "patch_all p passphrase ((rd, input) # rest) w =
     (case patchMemory p passphrase rd w input of
        (w', Inl e) \<Rightarrow> None
      | (w', Inr r) \<Rightarrow> patch_all p passphrase rest w')"

section \<open>Concrete instances\<close>

text \<open>
  The closed examples below need concrete library functions. \<open>demo_sha256Hex\<close> is a
  toy digest standing in for SHA-256 (the length of the text and its last six digits), \<open>demo_applyPatch\<close> implements the
  JSON-Patch \<^verbatim>\<open>add\<close> operation on nested objects (and fails on every other
  operation), and \<open>demo_isDatetime\<close> accepts the 24-character strings ending in
  \<^verbatim>\<open>Z\<close>, the shape of \<^verbatim>\<open>Date.prototype.toISOString\<close>. They are used only to
  instantiate the parameters at concrete inputs.
\<close>

definition demo_sha256Hex :: "string \<Rightarrow> string" where
  "demo_sha256Hex s =
     CHR ''h'' # string_of_nat (length s) @ take 6 (filter is_digit (rev s))"

fun upsert :: "string \<Rightarrow> json \<Rightarrow> (string \<times> json) list \<Rightarrow> (string \<times> json) list" where
  "upsert k v [] = [(k, v)]"
| "upsert k v ((k', v') # kvs) = (if k' = k then (k, v) # kvs else (k', v') # upsert k v kvs)"

fun add_at :: "string list \<Rightarrow> json \<Rightarrow> json \<Rightarrow> json option" where
  "add_at [k] v (JObj kvs) = Some (JObj (upsert k v kvs))"
| "add_at (k # k2 # ks) v (JObj kvs) =
     (case map_of kvs k of
        None \<Rightarrow> None
      | Some child \<Rightarrow> map_option (\<lambda>c. JObj (upsert k c kvs)) (add_at (k2 # ks) v child))"
| "add_at _ _ _ = None"

fun split_on :: "char \<Rightarrow> string \<Rightarrow> string list" where
  "split_on c [] = [[]]"
| "split_on c (x # xs) =
     (if x = c then [] # split_on c xs
      else (case split_on c xs of [] \<Rightarrow> [[x]] | y # ys \<Rightarrow> (x # y) # ys))"

fun demo_applyPatch :: "json \<Rightarrow> operation list \<Rightarrow> json option" where
  "demo_applyPatch doc [] = Some doc"
| "demo_applyPatch doc (x # rest) =
     (case (op_name x, op_value x, split_on CHR ''/'' (op_path x)) of
        (Add, Some v, [] # k # ks) \<Rightarrow>
          (case add_at (k # ks) v doc of
             None \<Rightarrow> None
           | Some doc' \<Rightarrow> demo_applyPatch doc' rest)
      | _ \<Rightarrow> None)"

definition demo_isDatetime :: "string \<Rightarrow> bool" where
  "demo_isDatetime s = (length s = 24 \<and> last s = CHR ''Z'')"

definition demo_platform :: platform where
  "demo_platform =
     \<lparr>sha256Hex = demo_sha256Hex, applyPatch = demo_applyPatch, isDatetime = demo_isDatetime,
      doubleToString = string_of_int\<rparr>"

definition demo_readings :: readings where
  "demo_readings =
     \<lparr>t_memory = ''2026-01-01T00:00:00.000Z'', t_snapshot = ''2026-01-01T00:00:00.001Z'',
      t_meta = ''2026-01-01T00:00:00.002Z'', salt0 = ''salt-a'', iv0 = ''iv-a'',
      t_now = ''2026-01-01T00:00:01.000Z'', salt1 = ''salt-b'', iv1 = ''iv-b'',
      append_written = WroteLine, append_rejects = None\<rparr>"

definition later_readings :: readings where
  "later_readings =
     demo_readings\<lparr>t_now := ''2026-01-01T00:00:02.000Z'', salt1 := ''salt-c'', iv1 := ''iv-c''\<rparr>"

definition last_readings :: readings where
  "last_readings =
     demo_readings\<lparr>t_now := ''2026-01-01T00:00:03.000Z'', salt1 := ''salt-d'', iv1 := ''iv-d''\<rparr>"

definition empty_dir :: world where
  "empty_dir =
     \<lparr>vault_file = None, ledger_file = None, ledger_open_tail = False, meta_file = None,
      events = []\<rparr>"

definition etag :: "nat \<Rightarrow> string" where
  "etag n = CHR 0x22 # CHR ''v'' # string_of_nat n @ [CHR 0x22]"

definition add_name_patch :: json where
  "add_name_patch =
     JArr [JObj [(''op'', JStr ''add''), (''path'', JStr ''/identity/name''),
                 (''value'', JStr ''Alice'')]]"

definition add_rule_patch :: json where
  "add_rule_patch =
     JArr [JObj [(''op'', JStr ''add''), (''path'', JStr ''/rules/strict''),
                 (''value'', JBool True)]]"

definition reserved_patch :: json where
  "reserved_patch =
     JArr [JObj [(''op'', JStr ''add''), (''path'', JStr ''/version''), (''value'', JNum 7)]]"

definition demo_input :: "nat \<Rightarrow> json \<Rightarrow> string \<Rightarrow> patch_input" where
  "demo_input n pt a =
     \<lparr>ifMatchHeader = etag n, input_patch = pt, input_actor = a,
      input_reason = ''lmv/demo/reason'', input_auth = AuthNone\<rparr>"

text \<open>A directory after \<^verbatim>\<open>initialize()\<close>, and after one and two patches.\<close>

definition fresh_vault :: world where
  "fresh_vault = fst (initialize demo_platform ''pass-a'' demo_readings empty_dir)"

definition vault_v1 :: world where
  "vault_v1 =
     fst (patchMemory demo_platform ''pass-a'' demo_readings fresh_vault
            (demo_input 0 add_name_patch ''agent:demo@localhost''))"

definition vault_v2 :: world where
  "vault_v2 =
     fst (patchMemory demo_platform ''pass-a'' later_readings vault_v1
            (demo_input 1 add_rule_patch ''agent:demo@localhost''))"

definition demo_snapshot :: vault_snapshot where
  "demo_snapshot =
     \<lparr>uid = UID, schema_version = SCHEMA_VERSION,
      memory = emptyMemory ''2026-01-01T00:00:00.000Z'', snapshot_cursor = 0,
      snap_updated_at = ''2026-01-01T00:00:00.001Z''\<rparr>"

text \<open>A stale request against the vault at version 1, the state of that vault, and requests
  to the HTTP surface.\<close>

definition stale_input :: patch_input where
  "stale_input = demo_input 0 add_rule_patch ''agent:other@localhost''"

definition state_v1 :: current_state where
  "state_v1 =
     \<lparr>cs_memory =
        \<lparr>version = 1,
         blocks = JObj [(''identity'', JObj [(''name'', JStr ''Alice'')]),
                        (''methodology'', JObj []), (''projects'', JObj []),
                        (''rules'', JObj [])],
         updated_at = ''2026-01-01T00:00:01.000Z''\<rparr>,
      cs_snapshot_cursor = 0, cs_ledger_cursor = 1\<rparr>"




text \<open>
  The vault at version 2 with an undecodable line after its two journal lines, and
  with one between them.
\<close>

definition torn_tail :: world where
  "torn_tail = vault_v2\<lparr>ledger_file := Some (journal_lines vault_v2 @ [NotJson])\<rparr>"

definition torn_middle :: world where
  "torn_middle =
     vault_v2\<lparr>ledger_file :=
               Some (take 1 (journal_lines vault_v2) @ NotJson # drop 1 (journal_lines vault_v2))\<rparr>"

text \<open>The state of the vault at version 2.\<close>

definition state_v2 :: current_state where
  "state_v2 =
     \<lparr>cs_memory =
        \<lparr>version = 2,
         blocks = JObj [(''identity'', JObj [(''name'', JStr ''Alice'')]),
                        (''methodology'', JObj []), (''projects'', JObj []),
                        (''rules'', JObj [(''strict'', JBool True)])],
         updated_at = ''2026-01-01T00:00:02.000Z''\<rparr>,
      cs_snapshot_cursor = 0, cs_ledger_cursor = 2\<rparr>"

text \<open>
  A patch with an empty actor against the vault at version 1, the directory after it,
  and the directory after one more patch.
\<close>

definition empty_actor_input :: patch_input where
  "empty_actor_input = demo_input 1 add_rule_patch []"

definition vault_lost :: world where
  "vault_lost = fst (patchMemory demo_platform ''pass-a'' later_readings vault_v1 empty_actor_input)"

definition vault_broken :: world where
  "vault_broken =
     fst (patchMemory demo_platform ''pass-a'' last_readings vault_lost
            (demo_input 1 add_rule_patch ''agent:demo@localhost''))"

text \<open>Whether a result is a failure with the given HTTP status.\<close>

fun fails_with :: "nat \<Rightarrow> exn + 'a \<Rightarrow> bool" where
  "fails_with code (Inl e) = (statusCode e = Some code)"
| "fails_with code (Inr _) = False"

section \<open>Properties\<close>

subsection \<open>Numerals and doubles\<close>

lemma bit_length_bound: "n < 2 ^ k \<Longrightarrow> bit_length n \<le> k"
proof (induction k arbitrary: n)
  case 0
  then show ?case by (simp add: bit_length.simps)
next
  case (Suc k)
  show ?case
  proof (cases "n \<le> 0")
    case True
    then show ?thesis by (simp add: bit_length.simps)
  next
    case False
    from Suc.prems have "n div 2 < 2 ^ k" by simp
    from Suc.IH [OF this] False show ?thesis
      by (subst bit_length.simps) simp
  qed
qed

lemma round_double_safe: "n < 2 ^ 53 \<Longrightarrow> round_double n = n"
  using bit_length_bound [of n 53] by (simp add: round_double_def)

lemma round_double_nonneg: "0 \<le> n \<Longrightarrow> 0 \<le> round_double n"
  by (auto simp: round_double_def Let_def pos_imp_zdiv_nonneg_iff)

lemma to_number_safe: "n < 2 ^ 53 \<Longrightarrow> to_number n = Num n"
proof -
  assume a: "n < 2 ^ 53"
  have "(2::int) ^ 53 < 2 ^ 1024" by simp
  with a have "n < 2 ^ 1024" by linarith
  with a show ?thesis by (simp add: to_number_def round_double_safe)
qed

lemma digit_value_digit_char: "d < 10 \<Longrightarrow> digit_value (digit_char d) ''0123456789'' = int d"
proof -
  assume "d < 10"
  then have "d = 0 \<or> d = 1 \<or> d = 2 \<or> d = 3 \<or> d = 4 \<or> d = 5 \<or> d = 6 \<or> d = 7
    \<or> d = 8 \<or> d = 9" by arith
  then show ?thesis by (elim disjE) (simp_all add: digit_char_def)
qed

lemma is_digit_digit_char: "d < 10 \<Longrightarrow> is_digit (digit_char d)"
proof -
  assume "d < 10"
  then have "d = 0 \<or> d = 1 \<or> d = 2 \<or> d = 3 \<or> d = 4 \<or> d = 5 \<or> d = 6 \<or> d = 7
    \<or> d = 8 \<or> d = 9" by arith
  then show ?thesis by (elim disjE) (simp_all add: digit_char_def is_digit_def)
qed

lemma digit_char_zero: "d < 10 \<Longrightarrow> digit_char d = CHR ''0'' \<longleftrightarrow> d = 0"
proof -
  assume "d < 10"
  then have "d = 0 \<or> d = 1 \<or> d = 2 \<or> d = 3 \<or> d = 4 \<or> d = 5 \<or> d = 6 \<or> d = 7
    \<or> d = 8 \<or> d = 9" by arith
  then show ?thesis by (elim disjE) (simp_all add: digit_char_def)
qed

lemma decimal_value_snoc:
  "decimal_value (ds @ [c]) = 10 * decimal_value ds + digit_value c ''0123456789''"
  by (simp add: decimal_value_def)

text \<open>
  The numeral \<open>string_of_nat\<close> writes: decimal digits, no leading zero, and the
  number is their value.
\<close>

lemma string_of_nat_decimal:
  "string_of_nat n \<noteq> [] \<and> list_all is_digit (string_of_nat n)
   \<and> (hd (string_of_nat n) = CHR ''0'' \<longrightarrow> n = 0)
   \<and> decimal_value (string_of_nat n) = int n"
proof (induction n rule: string_of_nat.induct)
  case (1 n)
  show ?case
  proof (cases "n < 10")
    case True
    then show ?thesis
      using digit_value_digit_char [of n]
      by (subst (1 2 3 4) string_of_nat.simps)
         (simp add: is_digit_digit_char digit_char_zero decimal_value_def
            del: digit_value.simps)
  next
    case False
    with 1 have ih: "string_of_nat (n div 10) \<noteq> []" "list_all is_digit (string_of_nat (n div 10))"
      "hd (string_of_nat (n div 10)) = CHR ''0'' \<longrightarrow> n div 10 = 0"
      "decimal_value (string_of_nat (n div 10)) = int (n div 10)"
      by simp_all
    have m: "n mod 10 < 10" by simp
    from False have nz: "n div 10 \<noteq> 0" by simp
    have s: "string_of_nat n = string_of_nat (n div 10) @ [digit_char (n mod 10)]"
      using False by (subst string_of_nat.simps) simp
    have d: "10 * int (n div 10) + int (n mod 10) = int n"
      by (simp add: zdiv_int zmod_int)
    show ?thesis
      using ih nz m d
      by (simp add: s decimal_value_snoc digit_value_digit_char is_digit_digit_char
            del: digit_value.simps)
  qed
qed

lemma is_digit_not_space: "is_digit c \<Longrightarrow> \<not> is_js_space c"
  by (auto simp: is_digit_def is_js_space_def)

lemma trim_unspaced:
  assumes "s \<noteq> []" "\<not> is_js_space (hd s)" "\<not> is_js_space (last s)"
  shows "trim s = s"
proof -
  from assms(1,2) have a: "dropWhile is_js_space s = s" by (cases s) simp_all
  from assms(1,3) have "dropWhile is_js_space (rev s) = rev s"
    by (cases "rev s") (simp_all add: last_rev [symmetric] hd_rev)
  with a show ?thesis by (simp add: trim_def)
qed

text \<open>
  The text of a version below \<open>2^53\<close> is its decimal numeral, and the ETag made of it
  parses, as an \<^verbatim>\<open>If-Match\<close>, to the version.
\<close>

lemma Number_toString_decimal:
  assumes "0 \<le> v" and "v < 2 ^ 53"
  shows "Number_toString p v \<noteq> []"
    and "list_all is_digit (Number_toString p v)"
    and "hd (Number_toString p v) = CHR ''0'' \<longrightarrow> Number_toString p v = ''0''"
    and "decimal_value (Number_toString p v) = v"
proof -
  note d = string_of_nat_decimal [of "nat v"]
  have "- (2 ^ 53) \<le> v" using assms(1) by (rule order_trans [rotated]) simp
  then have e: "Number_toString p v = string_of_nat (nat v)"
    using assms by (simp add: Number_toString_def string_of_int_def)
  show "Number_toString p v \<noteq> []" "list_all is_digit (Number_toString p v)"
    using d by (simp_all add: e)
  show "hd (Number_toString p v) = CHR ''0'' \<longrightarrow> Number_toString p v = ''0''"
  proof
    assume "hd (Number_toString p v) = CHR ''0''"
    with d have "nat v = 0" by (simp add: e)
    then show "Number_toString p v = ''0''"
      by (simp add: e string_of_nat.simps digit_char_def)
  qed
  show "decimal_value (Number_toString p v) = v"
    using d assms(1) by (simp add: e)
qed

lemma parseIfMatch_etagForVersion:
  assumes "0 \<le> v" and "v < 2 ^ 53"
  shows "parseIfMatch (etagForVersion p v) = Some (Num v)"
proof -
  note d = Number_toString_decimal [OF assms, of p]
  have t: "trim (etagForVersion p v) = etagForVersion p v"
    by (rule trim_unspaced) (simp_all add: etagForVersion_def is_js_space_def)
  show ?thesis
    using d assms(2)
    by (simp add: parseIfMatch_def t)
       (simp add: etagForVersion_def parseInt_def to_number_safe)
qed

subsection \<open>AAD encoding (C6)\<close>

lemma vaultAAD_not_canonical: "JSON_stringify (vaultAAD s) \<noteq> canonicalJson (vaultAAD s)"
  by (simp add: vaultAAD_def canonicalJson_def json_quote_def json_escape_def own_properties_def
        is_array_index_def is_digit_def Let_def)

lemma ledgerAAD_not_canonical: "JSON_stringify (ledgerAAD e) \<noteq> canonicalJson (ledgerAAD e)"
  by (simp add: ledgerAAD_def canonicalJson_def json_quote_def json_escape_def own_properties_def
        is_array_index_def is_digit_def Let_def)

lemma encryptEnvelope_aad:
  "aad_b64 (encryptEnvelope payload pw i ctx salt iv) = JSON_stringify ctx"
  by (simp add: encryptEnvelope_def aadToBuffer_def Let_def)

lemma encryptEnvelope_binds:
  "gcm_open (deriveRecordKey pw salt i) iv aad (sealed (encryptEnvelope payload pw i ctx salt iv))
     = (if aad = JSON_stringify ctx then Some (payload, ctx) else None)"
  by (simp add: encryptEnvelope_def aadToBuffer_def Let_def)

text \<open>
  C6, as the claim states it, fails: the AAD of the snapshot envelope of a fresh vault
  is not the canonical (sorted-key) JSON of its context.
\<close>

theorem C6_counterexample:
  "aad_b64 (encryptEnvelope (json_of_snapshot demo_snapshot) ''pass-a'' InfoVault
              (vaultAAD demo_snapshot) ''salt-a'' ''iv-a'')
   \<noteq> canonicalJson (vaultAAD demo_snapshot)"
  by code_simp

text \<open>
  C6 (amended): for every envelope produced by \<^verbatim>\<open>encryptEnvelope\<close>, the AAD bytes
  stored in \<^verbatim>\<open>aad_b64\<close> and bound to the AEAD (the box opens under exactly these
  bytes) are \<^verbatim>\<open>JSON.stringify\<close> of the AAD context, with the members in the order
  \<^verbatim>\<open>vaultAAD\<close> and \<^verbatim>\<open>ledgerAAD\<close> build them: record_type, uid, schema_version, then
  vault_version or entry_cursor. For both contexts these bytes differ from the
  canonical JSON encoding.
\<close>

theorem C6_aad_bytes_in_construction_order:
  "aad_b64 (encryptEnvelope payload pw i ctx salt iv) = JSON_stringify ctx
   \<and> gcm_open (deriveRecordKey pw salt i) iv aad
         (sealed (encryptEnvelope payload pw i ctx salt iv))
       = (if aad = JSON_stringify ctx then Some (payload, ctx) else None)
   \<and> object_keys (vaultAAD s) = [''record_type'', ''uid'', ''schema_version'', ''vault_version'']
   \<and> object_keys (ledgerAAD e) = [''record_type'', ''uid'', ''schema_version'', ''entry_cursor'']
   \<and> aad_b64 (encryptEnvelope payload pw i (vaultAAD s) salt iv) \<noteq> canonicalJson (vaultAAD s)
   \<and> aad_b64 (encryptEnvelope payload pw i (ledgerAAD e) salt iv) \<noteq> canonicalJson (ledgerAAD e)"
  using vaultAAD_not_canonical [of s] ledgerAAD_not_canonical [of e]
  by (simp add: encryptEnvelope_aad encryptEnvelope_binds) (simp add: vaultAAD_def ledgerAAD_def)

theorem C6_aad_bytes_witness:
  "aad_b64 (encryptEnvelope (json_of_snapshot demo_snapshot) ''pass-a'' InfoVault
              (vaultAAD demo_snapshot) ''salt-a'' ''iv-a'')
     = JSON_stringify (JObj [(''record_type'', JStr ''vault''), (''uid'', JStr ''lmv-v1''),
                             (''schema_version'', JNum 1), (''vault_version'', JNum 0)])"
proof -
  have "vaultAAD demo_snapshot
          = JObj [(''record_type'', JStr ''vault''), (''uid'', JStr ''lmv-v1''),
                  (''schema_version'', JNum 1), (''vault_version'', JNum 0)]"
    by code_simp
  then show ?thesis
    using C6_aad_bytes_in_construction_order
            [of "json_of_snapshot demo_snapshot" "''pass-a''" InfoVault "vaultAAD demo_snapshot"
                "''salt-a''" "''iv-a''"]
    by simp
qed

subsection \<open>Reserved paths (C7)\<close>

lemma assertPatchAllowed_reserved:
  "list_ex (\<lambda>x. op_path x = ''/version'' \<or> op_path x = ''/updated_at'') ops
   \<Longrightarrow> assertPatchAllowed ops = Some (PatchApplyError ''Patch cannot modify /version or /updated_at'')"
  by (induction ops) auto

text \<open>
  C7, as the claim states it, fails: a patch on \<^verbatim>\<open>/version\<close> is not rejected with
  status 400.
\<close>

theorem C7_counterexample:
  "\<not> fails_with 400 (snd (patchMemory demo_platform ''pass-a'' demo_readings vault_v1
                            (demo_input 1 reserved_patch ''agent:demo@localhost'')))"
  by code_simp

text \<open>
  C7 (amended): for every patch that passes the JSON-Patch schema and contains an
  operation whose path equals \<^verbatim>\<open>/version\<close> or \<^verbatim>\<open>/updated_at\<close>, \<^verbatim>\<open>patchMemory\<close>
  fails with a \<^verbatim>\<open>PatchApplyError\<close>, status 422, and returns the directory and the
  event log as they were: the lock is not taken and nothing is appended.
\<close>

theorem C7_reserved_path_rejected_422:
  assumes "jsonPatchSchema (input_patch input) = Some ops"
    and "list_ex (\<lambda>x. op_path x = ''/version'' \<or> op_path x = ''/updated_at'') ops"
  shows "patchMemory p pw rd w input
           = (w, Inl (PatchApplyError ''Patch cannot modify /version or /updated_at''))
         \<and> fails_with 422 (snd (patchMemory p pw rd w input))"
  using assms assertPatchAllowed_reserved [OF assms(2)]
  by (simp add: patchMemory_def PatchApplyError_def)

theorem C7_reserved_path_witness:
  "patchMemory demo_platform ''pass-a'' demo_readings vault_v1
      (demo_input 1 reserved_patch ''agent:demo@localhost'')
     = (vault_v1, Inl (PatchApplyError ''Patch cannot modify /version or /updated_at''))
   \<and> fails_with 422 (snd (patchMemory demo_platform ''pass-a'' demo_readings vault_v1
                             (demo_input 1 reserved_patch ''agent:demo@localhost'')))"
proof -
  have h1: "jsonPatchSchema (input_patch (demo_input 1 reserved_patch ''agent:demo@localhost''))
              = Some [\<lparr>op_name = Add, op_path = ''/version'', op_from = None,
                       op_value = Some (JNum 7)\<rparr>]"
    by code_simp
  have h2: "list_ex (\<lambda>x. op_path x = ''/version'' \<or> op_path x = ''/updated_at'')
              [\<lparr>op_name = Add, op_path = ''/version'', op_from = None,
                op_value = Some (JNum 7)\<rparr>]"
    by simp
  show ?thesis by (rule C7_reserved_path_rejected_422 [OF h1 h2])
qed

subsection \<open>Effects of the operations on the directory\<close>

lemma files_emit [simp]: "files (emit e w) = files w"
  by (simp add: files_def emit_def)

lemma events_emit [simp]: "events (emit e w) = events w @ [e]"
  by (simp add: emit_def)

lemma new_events_append [simp]: "events w' = events w @ evs \<Longrightarrow> new_events w w' = evs"
  by (simp add: new_events_def)

lemma pair_fst_snd: "snd x = b \<Longrightarrow> x = (fst x, b)"
  by (cases x) simp

lemma writeVault_effect:
  "writeVault p pw salt iv s w = (w', r) \<Longrightarrow>
     (case r of
        Inl e \<Rightarrow> w' = w
      | Inr u \<Rightarrow> events w' = events w @ [WriteFile VaultEnc] \<and> vault_file w' \<noteq> None
                 \<and> ledger_file w' = ledger_file w \<and> meta_file w' = meta_file w)"
  by (auto simp: writeVault_def Let_def emit_def split: option.splits)

lemma writeVault_files:
  "files w = files v \<Longrightarrow>
     snd (writeVault p pw salt iv s w) = snd (writeVault p pw salt iv s v)
     \<and> files (fst (writeVault p pw salt iv s w)) = files (fst (writeVault p pw salt iv s v))"
  by (auto simp: writeVault_def Let_def emit_def files_def split: option.splits)

lemma ensureMetaFile_files:
  "files w = files v \<Longrightarrow>
     snd (ensureMetaFile p rd w) = snd (ensureMetaFile p rd v)
     \<and> files (fst (ensureMetaFile p rd w)) = files (fst (ensureMetaFile p rd v))"
  by (auto simp: ensureMetaFile_def writeMeta_def Let_def emit_def files_def)

lemma ensureDataFiles_files:
  assumes "files w = files v"
  shows "snd (ensureDataFiles p pw rd w) = snd (ensureDataFiles p pw rd v)
     \<and> files (fst (ensureDataFiles p pw rd w)) = files (fst (ensureDataFiles p pw rd v))"
  using assms
  by (auto simp: ensureDataFiles_def ensureMetaFile_def writeMeta_def writeVault_def Let_def
       emit_def files_def split: option.splits prod.splits sum.splits if_splits)

lemma ensureMetaFile_effect:
  "ensureMetaFile p rd w = (w', r) \<Longrightarrow>
     vault_file w' = vault_file w \<and> ledger_file w' = ledger_file w
     \<and> (meta_file w \<noteq> None \<longrightarrow> w' = w)
     \<and> (\<exists>evs. events w' = events w @ evs \<and> list_all is_plain_write evs)"
  by (auto simp: ensureMetaFile_def writeMeta_def emit_def split: if_splits)

lemma ensureDataFiles_effect:
  assumes "ensureDataFiles p pw rd w = (w', r)"
  shows "(vault_file w \<noteq> None \<longrightarrow> vault_file w' = vault_file w)
     \<and> (ledger_file w \<noteq> None \<longrightarrow> ledger_file w' = ledger_file w)
     \<and> (meta_file w \<noteq> None \<longrightarrow> meta_file w' = meta_file w)
     \<and> journal_lines w' = journal_lines w
     \<and> (\<exists>evs. events w' = events w @ evs \<and> list_all is_plain_write evs)
     \<and> (\<forall>u. r = Inr u \<longrightarrow> vault_file w' \<noteq> None \<and> ledger_file w' \<noteq> None)"
  using assms
  by (auto simp: ensureDataFiles_def ensureMetaFile_def writeMeta_def writeVault_def Let_def
       emit_def journal_lines_def split: option.splits prod.splits sum.splits if_splits)

lemma readVault_files: "files w = files v \<Longrightarrow> readVault p pw w = readVault p pw v"
  by (simp add: readVault_def files_def)

lemma readLedgerEntries_files:
  "files w = files v \<Longrightarrow> readLedgerEntries p pw w = readLedgerEntries p pw v"
  by (simp add: readLedgerEntries_def files_def)

lemma getCurrentState_success:
  assumes "getCurrentState p pw rd w = (w1, Inr current)"
  shows "\<exists>s entries. ensureDataFiles p pw rd w = (w1, Inr ())
           \<and> readVault p pw w1 = Inr s \<and> readLedgerEntries p pw w1 = Inr entries
           \<and> replayLedger p s entries = Inr current"
  using assms
  by (auto simp: getCurrentState_def split: prod.splits sum.splits)

lemma withLock_result:
  "withLock fn w = (w', r) \<Longrightarrow>
     \<exists>w1. fn (emit LockAcquired w) = (w1, r) \<and> w' = emit LockReleased w1"
  by (auto simp: withLock_def Let_def split: prod.splits)

lemma appendLedgerEntry_failure:
  "appendLedgerEntry pw rd entry w = (w', Inl e) \<Longrightarrow> \<not> admission_failure e"
  by (auto simp: appendLedgerEntry_def Let_def split: if_splits)

lemma patchMemory_locked_failure:
  assumes "patchMemory_locked p pw rd input ops n w = (w', Inl e)" and "admission_failure e"
  shows "w' = fst (ensureDataFiles p pw rd w)"
  using assms
  by (auto simp: patchMemory_locked_def Let_def
        split: prod.splits sum.splits option.splits if_splits dest: appendLedgerEntry_failure)

lemma patchMemory_failure_cases:
  assumes "patchMemory p pw rd w input = (w', Inl e)" and "admission_failure e"
  shows "w' = w \<or> w' = emit LockReleased (fst (ensureDataFiles p pw rd (emit LockAcquired w)))"
proof -
  consider "w' = w"
    | ops n where "withLock (patchMemory_locked p pw rd input ops n) w = (w', Inl e)"
    using assms(1) by (auto simp: patchMemory_def split: option.splits)
  then show ?thesis
  proof cases
    case 1
    then show ?thesis by simp
  next
    case 2
    from withLock_result [OF 2] obtain w1 where
      "patchMemory_locked p pw rd input ops n (emit LockAcquired w) = (w1, Inl e)"
      and "w' = emit LockReleased w1"
      by blast
    with patchMemory_locked_failure [OF _ assms(2)] show ?thesis by blast
  qed
qed

lemma ensureDataFiles_open_tail:
  "ledger_open_tail (fst (ensureDataFiles p pw rd w)) = ledger_open_tail w"
  by (auto simp: ensureDataFiles_def ensureMetaFile_def writeMeta_def writeVault_def Let_def
        emit_def split: option.splits prod.splits sum.splits if_splits)

lemma plain_write_not_append:
  "list_all is_plain_write evs \<Longrightarrow> list_all (\<lambda>ev. ev \<noteq> AppendLine LedgerEnc) evs"
  by (induction evs) auto

lemma patchMemory_failure_effect:
  assumes "patchMemory p pw rd w input = (w', Inl e)" and "admission_failure e"
  shows "(vault_file w \<noteq> None \<longrightarrow> vault_file w' = vault_file w)
     \<and> (ledger_file w \<noteq> None \<longrightarrow> ledger_file w' = ledger_file w)
     \<and> journal_lines w' = journal_lines w
     \<and> ledger_open_tail w' = ledger_open_tail w
     \<and> list_all is_plain_write (new_events w w')"
proof -
  from patchMemory_failure_cases [OF assms]
  show ?thesis
  proof
    assume "w' = w"
    then show ?thesis by (simp add: new_events_def)
  next
    assume w': "w' = emit LockReleased (fst (ensureDataFiles p pw rd (emit LockAcquired w)))"
    obtain w1 r1 where e: "ensureDataFiles p pw rd (emit LockAcquired w) = (w1, r1)"
      by (cases "ensureDataFiles p pw rd (emit LockAcquired w)")
    from ensureDataFiles_effect [OF e]
    obtain evs where
      v: "vault_file (emit LockAcquired w) \<noteq> None \<longrightarrow> vault_file w1 = vault_file (emit LockAcquired w)"
      and l: "ledger_file (emit LockAcquired w) \<noteq> None \<longrightarrow> ledger_file w1 = ledger_file (emit LockAcquired w)"
      and j: "journal_lines w1 = journal_lines (emit LockAcquired w)"
      and ev: "events w1 = events (emit LockAcquired w) @ evs" "list_all is_plain_write evs"
      by blast
    have ne: "new_events w w' = LockAcquired # evs @ [LockReleased]"
      using w' e ev by (simp add: new_events_def)
    have t: "ledger_open_tail w1 = ledger_open_tail w"
      using ensureDataFiles_open_tail [of p pw rd "emit LockAcquired w"] e
      by (simp add: emit_def)
    show ?thesis
      using v l j t w' e ne ev(2) by (simp add: emit_def journal_lines_def)
  qed
qed

lemma patchMemory_prelock_failure:
  assumes "jsonPatchSchema (input_patch input) = None
           \<or> (\<exists>ops. jsonPatchSchema (input_patch input) = Some ops \<and> assertPatchAllowed ops \<noteq> None)
           \<or> parseIfMatch (ifMatchHeader input) = None"
  shows "fst (patchMemory p pw rd w input) = w"
  using assms by (auto simp: patchMemory_def split: option.splits)

lemma plain_write_no_rename: "list_all is_plain_write evs \<Longrightarrow> \<not> list_ex (renames_onto f) evs"
  by (induction evs) (auto elim: is_plain_write.elims)

lemma snapshot_locked_events:
  assumes "snapshot_locked p pw rd w = (w', r)"
  shows "\<exists>evs. events w' = events w @ evs \<and> list_all is_plain_write evs"
proof -
  obtain w1 r1 where e: "ensureDataFiles p pw rd w = (w1, r1)"
    by (cases "ensureDataFiles p pw rd w")
  from ensureDataFiles_effect [OF e] obtain evs where
    ev: "events w1 = events w @ evs" "list_all is_plain_write evs" by blast
  have "w' = w1 \<or> (\<exists>s r2. writeVault p pw (salt1 rd) (iv1 rd) s w1 = (w', r2))"
    using assms e
    by (auto simp: snapshot_locked_def Let_def split: sum.splits if_splits prod.splits)
  then show ?thesis
  proof
    assume "w' = w1" with ev show ?thesis by blast
  next
    assume "\<exists>s r2. writeVault p pw (salt1 rd) (iv1 rd) s w1 = (w', r2)"
    then obtain s r2 where "writeVault p pw (salt1 rd) (iv1 rd) s w1 = (w', r2)" by blast
    from writeVault_effect [OF this]
    have "events w' = events w1 \<or> events w' = events w1 @ [WriteFile VaultEnc]"
      by (cases r2) auto
    with ev show ?thesis by auto
  qed
qed

lemma withLock_events:
  assumes "\<And>v v' r. fn v = (v', r) \<Longrightarrow> \<exists>evs. events v' = events v @ evs \<and> list_all is_plain_write evs"
  shows "list_all is_plain_write (new_events w (fst (withLock fn w)))"
proof -
  obtain w1 r where f: "fn (emit LockAcquired w) = (w1, r)"
    by (cases "fn (emit LockAcquired w)")
  from assms [OF f] obtain evs where
    "events w1 = events (emit LockAcquired w) @ evs" "list_all is_plain_write evs" by blast
  then show ?thesis
    using f by (simp add: withLock_def new_events_def)
qed

subsection \<open>A vault at version 1, and a stale request\<close>

lemma stale_schema:
  "jsonPatchSchema (input_patch stale_input)
     = Some [\<lparr>op_name = Add, op_path = ''/rules/strict'', op_from = None,
              op_value = Some (JBool True)\<rparr>]"
  by code_simp

lemma stale_allowed:
  "assertPatchAllowed [\<lparr>op_name = Add, op_path = ''/rules/strict'', op_from = None,
                         op_value = Some (JBool True)\<rparr>] = None"
  by code_simp

lemma stale_if_match: "parseIfMatch (ifMatchHeader stale_input) = Some (Num 0)"
  by code_simp

lemma vault_v1_state:
  "snd (getCurrentState demo_platform ''pass-a'' later_readings vault_v1) = Inr state_v1"
  by code_simp

lemma vault_v1_stale_result:
  "snd (patchMemory demo_platform ''pass-a'' later_readings vault_v1 stale_input)
     = Inl (ConflictError ''Version conflict'' (etag 1))"
  by code_simp

lemma vault_v1_files_exist: "vault_file vault_v1 \<noteq> None \<and> ledger_file vault_v1 \<noteq> None"
  by code_simp

subsection \<open>Failure atomicity of patch admission (C10)\<close>

text \<open>
  The six refusals of \<^verbatim>\<open>patchMemory\<close> and their errors: three before the lock, and
  three (with the version conflict, see \<open>patchMemory_conflict\<close> below) once the state
  is assembled.
\<close>

lemma patchMemory_refused_before_lock:
  "jsonPatchSchema (input_patch input) = None \<Longrightarrow>
     patchMemory p pw rd w input = (w, Inl (SchemaValidationError ''Invalid JSON Patch schema''))"
  "jsonPatchSchema (input_patch input) = Some ops \<Longrightarrow> assertPatchAllowed ops \<noteq> None \<Longrightarrow>
     patchMemory p pw rd w input
       = (w, Inl (PatchApplyError ''Patch cannot modify /version or /updated_at''))"
  "jsonPatchSchema (input_patch input) = Some ops \<Longrightarrow> assertPatchAllowed ops = None \<Longrightarrow>
   parseIfMatch (ifMatchHeader input) = None \<Longrightarrow>
     patchMemory p pw rd w input
       = (w, Inl (SchemaValidationError
                   (''Invalid If-Match. Expected format: '' @ [CHR 0x22] @ ''v{n}'' @ [CHR 0x22])))"
proof -
  have r: "assertPatchAllowed xs = Some e \<Longrightarrow>
             e = PatchApplyError ''Patch cannot modify /version or /updated_at''" for xs e
    by (induction xs) (auto split: if_splits)
  show "jsonPatchSchema (input_patch input) = None \<Longrightarrow>
     patchMemory p pw rd w input = (w, Inl (SchemaValidationError ''Invalid JSON Patch schema''))"
    by (simp add: patchMemory_def)
  show "jsonPatchSchema (input_patch input) = Some ops \<Longrightarrow> assertPatchAllowed ops \<noteq> None \<Longrightarrow>
     patchMemory p pw rd w input
       = (w, Inl (PatchApplyError ''Patch cannot modify /version or /updated_at''))"
    using r [of ops] by (auto simp: patchMemory_def)
  show "jsonPatchSchema (input_patch input) = Some ops \<Longrightarrow> assertPatchAllowed ops = None \<Longrightarrow>
   parseIfMatch (ifMatchHeader input) = None \<Longrightarrow>
     patchMemory p pw rd w input
       = (w, Inl (SchemaValidationError
                   (''Invalid If-Match. Expected format: '' @ [CHR 0x22] @ ''v{n}'' @ [CHR 0x22])))"
    by (simp add: patchMemory_def)
qed

lemma patchMemory_refused_patch:
  assumes "jsonPatchSchema (input_patch input) = Some ops"
      and "assertPatchAllowed ops = None"
      and "parseIfMatch (ifMatchHeader input) = Some (Num (version (cs_memory current)))"
      and "getCurrentState p pw rd w = (w1, Inr current)"
  shows "applyPatch p (blocks (cs_memory current)) ops = None \<Longrightarrow>
           snd (patchMemory p pw rd w input) = Inl (PatchApplyError ''Patch application failed'')"
    and "applyPatch p (blocks (cs_memory current)) ops = Some doc \<Longrightarrow> blocksSchema doc = None \<Longrightarrow>
           snd (patchMemory p pw rd w input)
             = Inl (PatchApplyError ''Patch result violates blocks schema'')"
proof -
  from getCurrentState_success [OF assms(4)] obtain s entries where
    e: "ensureDataFiles p pw rd w = (w1, Inr ())"
    and rv: "readVault p pw w1 = Inr s" and rl: "readLedgerEntries p pw w1 = Inr entries"
    and rp: "replayLedger p s entries = Inr current"
    by blast
  obtain w2 r2 where e2: "ensureDataFiles p pw rd (emit LockAcquired w) = (w2, r2)"
    by (cases "ensureDataFiles p pw rd (emit LockAcquired w)")
  have f: "files (emit LockAcquired w) = files w" by simp
  from ensureDataFiles_files [OF f, of p pw rd] e e2
  have r2: "r2 = Inr ()" and f2: "files w2 = files w1" by simp_all
  have reads: "readVault p pw w2 = Inr s" "readLedgerEntries p pw w2 = Inr entries"
    using readVault_files [OF f2] readLedgerEntries_files [OF f2] rv rl by simp_all
  show "snd (patchMemory p pw rd w input) = Inl (PatchApplyError ''Patch application failed'')"
    if "applyPatch p (blocks (cs_memory current)) ops = None"
    using that reads e2 r2 rp assms(1-3)
    by (simp add: patchMemory_def withLock_def patchMemory_locked_def Let_def clone_def)
  show "snd (patchMemory p pw rd w input)
          = Inl (PatchApplyError ''Patch result violates blocks schema'')"
    if "applyPatch p (blocks (cs_memory current)) ops = Some doc" "blocksSchema doc = None"
    using that reads e2 r2 rp assms(1-3)
    by (simp add: patchMemory_def withLock_def patchMemory_locked_def Let_def clone_def)
qed

lemma admission_failures:
  "admission_failure (SchemaValidationError ''Invalid JSON Patch schema'')"
  "admission_failure (PatchApplyError ''Patch cannot modify /version or /updated_at'')"
  "admission_failure (SchemaValidationError
     (''Invalid If-Match. Expected format: '' @ [CHR 0x22] @ ''v{n}'' @ [CHR 0x22]))"
  "admission_failure (ConflictError ''Version conflict'' t)"
  "admission_failure (PatchApplyError ''Patch application failed'')"
  "admission_failure (PatchApplyError ''Patch result violates blocks schema'')"
  by (simp_all add: SchemaValidationError_def PatchApplyError_def ConflictError_def)

text \<open>
  C10, as the claim states it, fails on a directory without files: a call with a stale
  \<^verbatim>\<open>If-Match\<close> fails with 409 after \<^verbatim>\<open>ensureDataFiles\<close> has created the initial
  snapshot and the empty journal.
\<close>

theorem C10_counterexample:
  "fails_with 409 (snd (patchMemory demo_platform ''pass-a'' demo_readings empty_dir
                         (demo_input 7 add_name_patch ''agent:demo@localhost'')))
   \<and> \<not> (vault_file (fst (patchMemory demo_platform ''pass-a'' demo_readings empty_dir
                            (demo_input 7 add_name_patch ''agent:demo@localhost'')))
           = vault_file empty_dir
         \<and> ledger_file (fst (patchMemory demo_platform ''pass-a'' demo_readings empty_dir
                               (demo_input 7 add_name_patch ''agent:demo@localhost'')))
           = ledger_file empty_dir)"
  by code_simp

text \<open>
  C10 (amended): a \<^verbatim>\<open>patchMemory\<close> call that fails with one of the six admission
  errors (invalid patch schema, reserved path, malformed \<^verbatim>\<open>If-Match\<close>, version
  conflict, patch application failure, blocks-shape violation) appends no journal line
  and leaves an existing snapshot file and an existing journal file exactly as they
  were; the events it adds are the lock, \<^verbatim>\<open>mkdir\<close> and the creation of missing
  files by \<^verbatim>\<open>ensureDataFiles\<close>. When the failure is one of the three checks before
  the lock (patch schema, reserved path, \<^verbatim>\<open>If-Match\<close> format) nothing happens at
  all.
\<close>

theorem C10_failure_leaves_existing_files:
  assumes "patchMemory p pw rd w input = (w', Inl e)" and "admission_failure e"
  shows "(vault_file w \<noteq> None \<longrightarrow> vault_file w' = vault_file w)
     \<and> (ledger_file w \<noteq> None \<longrightarrow> ledger_file w' = ledger_file w)
     \<and> journal_lines w' = journal_lines w
     \<and> ledger_open_tail w' = ledger_open_tail w
     \<and> list_all is_plain_write (new_events w w')
     \<and> (jsonPatchSchema (input_patch input) = None
          \<or> (\<exists>ops. jsonPatchSchema (input_patch input) = Some ops \<and> assertPatchAllowed ops \<noteq> None)
          \<or> parseIfMatch (ifMatchHeader input) = None
        \<longrightarrow> w' = w)"
  using patchMemory_failure_effect [OF assms] patchMemory_prelock_failure [of input p pw rd w] assms
  by auto

theorem C10_failure_witness:
  "fails_with 409 (snd (patchMemory demo_platform ''pass-a'' later_readings vault_v1 stale_input))
   \<and> admission_failure (ConflictError ''Version conflict'' (etag 1))
   \<and> vault_file (fst (patchMemory demo_platform ''pass-a'' later_readings vault_v1 stale_input))
       = vault_file vault_v1
   \<and> ledger_file (fst (patchMemory demo_platform ''pass-a'' later_readings vault_v1 stale_input))
       = ledger_file vault_v1"
proof -
  have h: "patchMemory demo_platform ''pass-a'' later_readings vault_v1 stale_input
              = (fst (patchMemory demo_platform ''pass-a'' later_readings vault_v1 stale_input),
                 Inl (ConflictError ''Version conflict'' (etag 1)))"
    using vault_v1_stale_result by (rule pair_fst_snd)
  have a: "admission_failure (ConflictError ''Version conflict'' (etag 1))"
    by (simp add: ConflictError_def)
  from C10_failure_leaves_existing_files [OF h a] vault_v1_files_exist vault_v1_stale_result a
  show ?thesis
    by (simp add: ConflictError_def)
qed

text \<open>
  Outside the six admission errors the journal can change on a failing call: when
  \<^verbatim>\<open>handle.sync()\<close> rejects in \<^verbatim>\<open>appendLedgerEntry\<close>, the call fails and the line
  that \<^verbatim>\<open>handle.write\<close> has written stays in the file.
\<close>

lemma append_failure_leaves_line:
  "snd (patchMemory demo_platform ''pass-a'' (demo_readings\<lparr>append_rejects := Some FsSync\<rparr>)
          fresh_vault (demo_input 0 add_name_patch ''agent:demo@localhost''))
     = Inl (JsError ''fsync'')
   \<and> journal_lines fresh_vault = []
   \<and> length (journal_lines
         (fst (patchMemory demo_platform ''pass-a'' (demo_readings\<lparr>append_rejects := Some FsSync\<rparr>)
                 fresh_vault (demo_input 0 add_name_patch ''agent:demo@localhost'')))) = 1"
  by code_simp

subsection \<open>How the snapshot file is replaced (C8)\<close>

text \<open>
  C8, as the claim states it, fails: compaction of a vault at version 1 takes the
  lock, calls \<^verbatim>\<open>mkdir\<close>, writes \<^verbatim>\<open>vault.enc\<close> in place and releases the lock;
  there is no temporary file, no \<^verbatim>\<open>fsync\<close> and no rename.
\<close>

theorem C8_counterexample:
  "new_events vault_v1 (fst (snapshot demo_platform ''pass-a'' later_readings vault_v1))
     = [LockAcquired, Mkdir, WriteFile VaultEnc, LockReleased]
   \<and> \<not> replaces_atomically VaultEnc
         (new_events vault_v1 (fst (snapshot demo_platform ''pass-a'' later_readings vault_v1)))"
  by code_simp

text \<open>
  C8 (amended): every successful \<^verbatim>\<open>writeVault\<close> is one \<^verbatim>\<open>writeFile\<close> of the new
  envelope onto \<^verbatim>\<open>vault.enc\<close> itself, and every event of compaction
  (\<^verbatim>\<open>snapshot()\<close>) and of initialization is a lock event, \<^verbatim>\<open>mkdir\<close> or such a
  \<^verbatim>\<open>writeFile\<close>: no temporary file, no \<^verbatim>\<open>fsync\<close>, no rename.
\<close>

theorem C8_snapshot_written_in_place:
  "(writeVault p pw salt iv s w = (w', Inr u) \<longrightarrow>
      new_events w w' = [WriteFile VaultEnc]
      \<and> (\<exists>v. vaultSnapshotSchema (isDatetime p) (json_of_snapshot s) = Some v
             \<and> vault_file w' = Some (JsonText (EnvelopeJson
                  (encryptEnvelope (json_of_snapshot v) pw InfoVault (vaultAAD v) salt iv)))))
   \<and> list_all is_plain_write (new_events w (fst (snapshot p pw rd w)))
   \<and> list_all is_plain_write (new_events w (fst (initialize p pw rd w)))
   \<and> \<not> replaces_atomically VaultEnc (new_events w (fst (snapshot p pw rd w)))
   \<and> \<not> replaces_atomically VaultEnc (new_events w (fst (initialize p pw rd w)))"
proof -
  have a: "writeVault p pw salt iv s w = (w', Inr u) \<longrightarrow>
      new_events w w' = [WriteFile VaultEnc]
      \<and> (\<exists>v. vaultSnapshotSchema (isDatetime p) (json_of_snapshot s) = Some v
             \<and> vault_file w' = Some (JsonText (EnvelopeJson
                  (encryptEnvelope (json_of_snapshot v) pw InfoVault (vaultAAD v) salt iv))))"
    by (auto simp: writeVault_def Let_def emit_def new_events_def split: option.splits)
  have b: "list_all is_plain_write (new_events w (fst (snapshot p pw rd w)))"
    unfolding snapshot_def by (rule withLock_events) (rule snapshot_locked_events)
  have c: "list_all is_plain_write (new_events w (fst (initialize p pw rd w)))"
    unfolding initialize_def
    by (rule withLock_events) (use ensureDataFiles_effect in blast)
  show ?thesis
    using a b c plain_write_no_rename by (simp add: replaces_atomically_def)
qed

theorem C8_written_in_place_witness:
  "new_events empty_dir (fst (writeVault demo_platform ''pass-a'' ''salt-a'' ''iv-a'' demo_snapshot empty_dir))
     = [WriteFile VaultEnc]
   \<and> list_all is_plain_write
       (new_events vault_v1 (fst (snapshot demo_platform ''pass-a'' later_readings vault_v1)))"
proof -
  have "snd (writeVault demo_platform ''pass-a'' ''salt-a'' ''iv-a'' demo_snapshot empty_dir) = Inr ()"
    by code_simp
  then have h: "writeVault demo_platform ''pass-a'' ''salt-a'' ''iv-a'' demo_snapshot empty_dir
      = (fst (writeVault demo_platform ''pass-a'' ''salt-a'' ''iv-a'' demo_snapshot empty_dir), Inr ())"
    by (rule pair_fst_snd)
  show ?thesis
    using h C8_snapshot_written_in_place
        [of demo_platform "''pass-a''" "''salt-a''" "''iv-a''" demo_snapshot empty_dir
            "fst (writeVault demo_platform ''pass-a'' ''salt-a'' ''iv-a'' demo_snapshot empty_dir)"
            "()" later_readings]
      C8_snapshot_written_in_place [of demo_platform "''pass-a''" _ _ _ vault_v1 _ _ later_readings]
    by blast
qed

subsection \<open>Required headers of the PATCH request (C9)\<close>









subsection \<open>Torn-append recovery (C5)\<close>

lemma corruption_status:
  "is_StorageCorruptionError (StorageCorruptionError msg)
   \<and> statusCode (StorageCorruptionError msg) = Some 500"
  by (simp add: StorageCorruptionError_def)

lemma decodeLine_corruption:
  "decodeLine p pw l = Inl e \<Longrightarrow> is_StorageCorruptionError e \<Longrightarrow> statusCode e = Some 500"
  by (auto simp: decodeLine_def decryptEnvelope_def StorageCorruptionError_def
        SchemaValidationError_def Let_def
      split: raw_text.splits sum.splits option.splits if_splits prod.splits)

lemma decodeLines_bad_not_last:
  assumes "decodeLine p pw bad = Inl err" and "post \<noteq> []"
  shows "\<exists>e. decodeLines p pw (pre @ bad # post) = Inl e
             \<and> is_StorageCorruptionError e \<and> statusCode e = Some 500"
proof (induction pre)
  case Nil
  show ?case
    using assms decodeLine_corruption [OF assms(1)] corruption_status by auto
next
  case (Cons l pre)
  show ?case
  proof (cases "decodeLine p pw l")
    case (Inl e)
    then show ?thesis
      using decodeLine_corruption [OF Inl] corruption_status by auto
  next
    case (Inr entry)
    with Cons.IH show ?thesis by auto
  qed
qed

lemma decodeLines_bad_last:
  assumes "decodeLine p pw bad = Inl err" and "list_all (decodes p pw) pre"
  shows "\<exists>entries. decodeLines p pw pre = Inr entries \<and> length entries = length pre
                   \<and> decodeLines p pw (pre @ [bad]) = Inr entries"
  using assms(2)
proof (induction pre)
  case Nil
  show ?case using assms(1) by simp
next
  case (Cons l pre)
  then obtain entries where
    e: "decodeLines p pw pre = Inr entries" "length entries = length pre"
       "decodeLines p pw (pre @ [bad]) = Inr entries"
    by auto
  from Cons.prems obtain entry where "decodeLine p pw l = Inr entry"
    by (auto simp: decodes_def split: sum.splits)
  with e show ?case by simp
qed

lemma readLedgerEntries_cong:
  "ledger_file w = ledger_file v \<Longrightarrow> readLedgerEntries p pw w = readLedgerEntries p pw v"
  by (simp add: readLedgerEntries_def)

text \<open>
  C5: let a line fail to decode (JSON parse, envelope parse, key or AEAD check, and
  also entry schema or AAD comparison: everything inside the \<^verbatim>\<open>try\<close>). If it is not
  the last line, \<^verbatim>\<open>readLedgerEntries\<close> fails with a \<^verbatim>\<open>StorageCorruptionError\<close>
  (500). If it is the last line and every line before it decodes, it is discarded: the
  decoded journal is that of the lines before it, and reading gives what reading the
  journal without the last line gives; it succeeds with those entries whenever they
  pass the cursor and hash-chain verification.
\<close>

theorem C5_torn_append_recovery:
  assumes "decodeLine p pw bad = Inl err"
  shows "(post \<noteq> [] \<and> ledger_file w = Some (pre @ bad # post) \<longrightarrow>
            (\<exists>e. readLedgerEntries p pw w = Inl e
                  \<and> is_StorageCorruptionError e \<and> statusCode e = Some 500))
     \<and> (list_all (decodes p pw) pre \<and> ledger_file w = Some (pre @ [bad]) \<longrightarrow>
            (\<exists>entries. decodeLines p pw (pre @ [bad]) = Inr entries
                  \<and> decodeLines p pw pre = Inr entries
                  \<and> length entries = length pre
                  \<and> readLedgerEntries p pw w = readLedgerEntries p pw (w\<lparr>ledger_file := Some pre\<rparr>)
                  \<and> (verifyChain p [] 0 entries = None \<longrightarrow> readLedgerEntries p pw w = Inr entries)))"
proof (intro conjI impI)
  assume a: "post \<noteq> [] \<and> ledger_file w = Some (pre @ bad # post)"
  with decodeLines_bad_not_last [OF assms, of post pre]
  show "\<exists>e. readLedgerEntries p pw w = Inl e \<and> is_StorageCorruptionError e \<and> statusCode e = Some 500"
    by (auto simp: readLedgerEntries_def)
next
  assume a: "list_all (decodes p pw) pre \<and> ledger_file w = Some (pre @ [bad])"
  with decodeLines_bad_last [OF assms, of pre]
  show "\<exists>entries. decodeLines p pw (pre @ [bad]) = Inr entries
                  \<and> decodeLines p pw pre = Inr entries
                  \<and> length entries = length pre
                  \<and> readLedgerEntries p pw w = readLedgerEntries p pw (w\<lparr>ledger_file := Some pre\<rparr>)
                  \<and> (verifyChain p [] 0 entries = None \<longrightarrow> readLedgerEntries p pw w = Inr entries)"
    by (auto simp: readLedgerEntries_def)
qed

theorem C5_torn_append_witness:
  "readLedgerEntries demo_platform ''pass-a'' torn_tail
     = readLedgerEntries demo_platform ''pass-a'' vault_v2
   \<and> (\<exists>entries. readLedgerEntries demo_platform ''pass-a'' torn_tail = Inr entries
                  \<and> length entries = 2)
   \<and> fails_with 500 (readLedgerEntries demo_platform ''pass-a'' torn_middle)"
proof -
  have bad: "decodeLine demo_platform ''pass-a'' NotJson = Inl (JsError ''SyntaxError'')"
    by (simp add: decodeLine_def)
  have pre: "list_all (decodes demo_platform ''pass-a'') (journal_lines vault_v2)"
    by code_simp
  have ex: "ledger_file vault_v2 = Some (journal_lines vault_v2)"
    by code_simp
  have len: "length (journal_lines vault_v2) = 2"
    by code_simp
  have ok: "case readLedgerEntries demo_platform ''pass-a'' vault_v2 of Inl e \<Rightarrow> False | Inr es \<Rightarrow> True"
    by code_simp
  have t: "ledger_file torn_tail = Some (journal_lines vault_v2 @ [NotJson])"
    by (simp add: torn_tail_def)
  have m: "take 1 (journal_lines vault_v2) @ NotJson # drop 1 (journal_lines vault_v2)
             = take 1 (journal_lines vault_v2) @ NotJson # drop 1 (journal_lines vault_v2)
           \<and> drop 1 (journal_lines vault_v2) \<noteq> []
           \<and> ledger_file torn_middle
               = Some (take 1 (journal_lines vault_v2) @ NotJson # drop 1 (journal_lines vault_v2))"
    using len by (simp add: torn_middle_def)
  from C5_torn_append_recovery [OF bad, where pre = "journal_lines vault_v2" and w = torn_tail] pre t
  obtain entries where
    e: "length entries = length (journal_lines vault_v2)"
       "readLedgerEntries demo_platform ''pass-a'' torn_tail
          = readLedgerEntries demo_platform ''pass-a'' (torn_tail\<lparr>ledger_file := Some (journal_lines vault_v2)\<rparr>)"
       "decodeLines demo_platform ''pass-a'' (journal_lines vault_v2) = Inr entries"
    by blast
  have same: "readLedgerEntries demo_platform ''pass-a'' torn_tail
                = readLedgerEntries demo_platform ''pass-a'' vault_v2"
    using e(2) readLedgerEntries_cong [of "torn_tail\<lparr>ledger_file := Some (journal_lines vault_v2)\<rparr>" vault_v2]
      ex by simp
  have two: "\<exists>entries. readLedgerEntries demo_platform ''pass-a'' torn_tail = Inr entries
                  \<and> length entries = 2"
    using same ok e(1,3) len ex
    by (auto simp: readLedgerEntries_def split: sum.splits option.splits)
  from C5_torn_append_recovery
         [OF bad, where post = "drop 1 (journal_lines vault_v2)" and w = torn_middle
            and pre = "take 1 (journal_lines vault_v2)"] m
  have "fails_with 500 (readLedgerEntries demo_platform ''pass-a'' torn_middle)"
    by auto
  with same two show ?thesis by blast
qed

subsection \<open>Compaction (C4)\<close>

lemma blocksSchema_idem:
  assumes "blocksSchema b = Some b'"
  shows "blocksSchema b' = Some b'"
proof -
  from assms obtain kvs where b: "b = JObj kvs"
    by (cases b) simp_all
  have f: "filter (\<lambda>(k, v). k \<notin> set blocks_shape) (filter (\<lambda>(k, v). k \<notin> set blocks_shape) kvs)
             = filter (\<lambda>(k, v). k \<notin> set blocks_shape) kvs"
    by simp
  have n: "\<And>k. k \<in> set blocks_shape \<Longrightarrow> map_of (filter (\<lambda>(k, v). k \<notin> set blocks_shape) kvs) k = None"
    by (induction kvs) auto
  show ?thesis
    using assms b n [of "''identity''"] n [of "''methodology''"] n [of "''projects''"] n [of "''rules''"]
    by (auto simp: blocks_shape_def optional_member_def map_add_def split: option.splits)
qed

lemma memorySchema_fixpoint:
  assumes "memorySchema dt j = Some m"
  shows "memory_ok dt m"
proof -
  from assms obtain kvs where j: "j = JObj kvs"
    by (cases j) simp_all
  from assms j obtain b where b: "blocksSchema b = Some (blocks m)" "0 \<le> version m" "dt (updated_at m)"
    by (auto simp: Option.bind_eq_Some_conv split: option.splits if_splits)
  from blocksSchema_idem [OF b(1)] b(2,3) show ?thesis
    by (simp add: memory_ok_def json_of_memory_def get_int_def get_str_def)
qed

lemma vaultSnapshotSchema_fixpoint:
  assumes "vaultSnapshotSchema dt j = Some s"
  shows "vaultSnapshotSchema dt (json_of_snapshot s) = Some s \<and> memory_ok dt (memory s)"
proof -
  from assms obtain kvs where j: "j = JObj kvs"
    by (cases j) simp_all
  from assms j obtain mj where
    m: "memorySchema dt mj = Some (memory s)"
    and c: "uid s \<noteq> []" "0 < schema_version s" "0 \<le> snapshot_cursor s" "dt (snap_updated_at s)"
    by (auto simp: Option.bind_eq_Some_conv split: option.splits if_splits)
  from memorySchema_fixpoint [OF m] have ok: "memory_ok dt (memory s)" .
  then show ?thesis
    using c by (simp add: json_of_snapshot_def get_int_def get_str_def memory_ok_def)
qed

lemma snapshot_of_valid_memory:
  assumes "memory_ok dt m"
  shows "vaultSnapshotSchema dt
           (json_of_snapshot \<lparr>uid = UID, schema_version = SCHEMA_VERSION, memory = m,
                              snapshot_cursor = c, snap_updated_at = t\<rparr>)
         = (if 0 \<le> c \<and> dt t
            then Some \<lparr>uid = UID, schema_version = SCHEMA_VERSION, memory = m,
                       snapshot_cursor = c, snap_updated_at = t\<rparr>
            else None)"
  using assms
  by (simp add: json_of_snapshot_def get_int_def get_str_def memory_ok_def UID_def
        SCHEMA_VERSION_def)

lemma replayLoop_memory_ok:
  assumes "replayLoop p sc m entries = Inr m'" and "memory_ok (isDatetime p) m"
  shows "memory_ok (isDatetime p) m'"
  using assms
proof (induction entries arbitrary: m)
  case Nil
  then show ?case by simp
next
  case (Cons entry rest)
  show ?case
  proof (cases "cursor entry \<le> sc")
    case True
    with Cons show ?thesis by simp
  next
    case False
    with Cons.prems(1) obtain doc v where
      d: "applyPatch p (clone (blocks m)) (patch entry) = Some doc"
      and v: "memorySchema (isDatetime p)
                (json_of_memory (m\<lparr>blocks := doc, version := new_version entry,
                                   updated_at := ts entry\<rparr>)) = Some v"
      and r: "replayLoop p sc ((m\<lparr>blocks := doc, version := new_version entry,
                                  updated_at := ts entry\<rparr>)\<lparr>blocks := blocks v\<rparr>) rest = Inr m'"
      by (auto simp: Let_def split: if_splits option.splits)
    have eq: "(m\<lparr>blocks := doc, version := new_version entry, updated_at := ts entry\<rparr>)\<lparr>blocks := blocks v\<rparr> = v"
      using v
      by (auto simp: json_of_memory_def get_int_def get_str_def split: option.splits if_splits)
    from memorySchema_fixpoint [OF v] Cons.IH [OF r [unfolded eq]] eq r show ?thesis by simp
  qed
qed

lemma verifyChain_cursors:
  "verifyChain p h i entries = None
   \<Longrightarrow> list_all (\<lambda>e. cursor e \<le> i + int (length entries)) entries"
proof (induction entries arbitrary: h i)
  case Nil
  then show ?case by simp
next
  case (Cons e rest)
  from Cons.prems have c: "cursor e = i + 1" and r: "verifyChain p (entry_hash e) (i + 1) rest = None"
    by (auto split: if_splits)
  from Cons.IH [OF r] have "list_all (\<lambda>x. cursor x \<le> i + 1 + int (length rest)) rest" .
  then show ?case using c by (auto simp: list_all_iff)
qed

lemma replayLoop_skip:
  "list_all (\<lambda>e. cursor e \<le> sc) entries \<Longrightarrow> replayLoop p sc m entries = Inr m"
  by (induction entries) auto

lemma readLedgerEntries_verified:
  "readLedgerEntries p pw w = Inr entries \<Longrightarrow> verifyChain p [] 0 entries = None"
  by (auto simp: readLedgerEntries_def split: option.splits sum.splits)

lemma ensureDataFiles_noop:
  assumes "vault_file w \<noteq> None" "ledger_file w \<noteq> None" "meta_file w \<noteq> None"
  shows "ensureDataFiles p pw rd w = (emit Mkdir w, Inr ())"
  using assms by (auto simp: ensureDataFiles_def ensureMetaFile_def emit_def Let_def)

lemma readVault_after_write:
  assumes "vault_file w = Some (JsonText (EnvelopeJson
             (encryptEnvelope (json_of_snapshot v) pw InfoVault (vaultAAD v) salt iv)))"
      and "vaultSnapshotSchema (isDatetime p) (json_of_snapshot v) = Some v"
  shows "readVault p pw w = Inr v"
  using assms
  by (simp add: readVault_def decryptEnvelope_def encryptEnvelope_def deriveRecordKey_def
        aadToBuffer_def Let_def)

lemma readVault_schema:
  "readVault p pw w = Inr s \<Longrightarrow> \<exists>j. vaultSnapshotSchema (isDatetime p) j = Some s"
  by (auto simp: readVault_def split: option.splits raw_text.splits sum.splits if_splits)

lemma getCurrentState_of_files:
  assumes "vault_file v \<noteq> None" "ledger_file v \<noteq> None" "meta_file v \<noteq> None"
  shows "snd (getCurrentState p pw rd v)
           = (case readVault p pw v of
                Inl e \<Rightarrow> Inl e
              | Inr s \<Rightarrow>
                  (case readLedgerEntries p pw v of
                     Inl e \<Rightarrow> Inl e
                   | Inr es \<Rightarrow> replayLedger p s es))"
proof -
  have f: "files (emit Mkdir v) = files v" by simp
  show ?thesis
    using ensureDataFiles_noop [OF assms, of p pw rd]
      readVault_files [OF f, of p pw] readLedgerEntries_files [OF f, of p pw]
    by (simp add: getCurrentState_def split: sum.splits)
qed

lemma vault_v2_files_exist:
  "vault_file vault_v2 \<noteq> None \<and> ledger_file vault_v2 \<noteq> None \<and> meta_file vault_v2 \<noteq> None"
  by code_simp

lemma vault_v2_state:
  "snd (getCurrentState demo_platform ''pass-a'' last_readings vault_v2) = Inr state_v2"
  by code_simp

text \<open>
  C4: take a vault whose three files exist and whose state assembles
  (\<^verbatim>\<open>getCurrentState\<close> succeeds with \<open>st\<close>), and run \<^verbatim>\<open>snapshot()\<close>. Afterwards
  \<^verbatim>\<open>getCurrentState\<close> succeeds with the same memory and the same ledger cursor. When
  \<open>ledger_cursor \<le> snapshot_cursor\<close> the three files are untouched. Otherwise (the clock
  giving a timestamp the schema accepts) the snapshot read back records
  \<open>snapshot_cursor\<close> equal to the number of journal entries and the fully replayed
  memory, and the journal file is untouched.
\<close>

theorem C4_compaction_equivalence:
  assumes ex: "vault_file w \<noteq> None" "ledger_file w \<noteq> None" "meta_file w \<noteq> None"
      and st: "getCurrentState p pw rd w = (w0, Inr st)"
      and sn: "snapshot p pw rd w = (w', r)"
  shows "(\<exists>st'. snd (getCurrentState p pw rd' w') = Inr st'
               \<and> cs_memory st' = cs_memory st \<and> cs_ledger_cursor st' = cs_ledger_cursor st)
     \<and> (cs_ledger_cursor st \<le> cs_snapshot_cursor st \<longrightarrow>
          files w' = files w
          \<and> r = Inr \<lparr>r_snapshot_cursor = cs_snapshot_cursor st,
                     r_ledger_cursor = cs_ledger_cursor st,
                     r_memory_version = version (cs_memory st)\<rparr>)
     \<and> (cs_snapshot_cursor st < cs_ledger_cursor st \<and> isDatetime p (t_now rd) \<longrightarrow>
          (\<exists>s entries. readVault p pw w' = Inr s \<and> readLedgerEntries p pw w' = Inr entries
               \<and> snapshot_cursor s = int (length entries) \<and> memory s = cs_memory st)
          \<and> ledger_file w' = ledger_file w
          \<and> r = Inr \<lparr>r_snapshot_cursor = cs_ledger_cursor st,
                     r_ledger_cursor = cs_ledger_cursor st,
                     r_memory_version = version (cs_memory st)\<rparr>)"
proof -
  from getCurrentState_success [OF st] obtain s entries where
    e0: "ensureDataFiles p pw rd w = (w0, Inr ())"
    and rv0: "readVault p pw w0 = Inr s" and rl0: "readLedgerEntries p pw w0 = Inr entries"
    and rp: "replayLedger p s entries = Inr st"
    by blast
  have f0: "files w0 = files w"
    using ensureDataFiles_noop [OF ex, of p pw rd] e0 by auto
  define w1 where "w1 = emit Mkdir (emit LockAcquired w)"
  have f1: "files w1 = files w" by (simp add: w1_def)
  have e1: "ensureDataFiles p pw rd (emit LockAcquired w) = (w1, Inr ())"
    unfolding w1_def using ex by (intro ensureDataFiles_noop) (simp_all add: emit_def)
  have rv: "readVault p pw w = Inr s" and rl: "readLedgerEntries p pw w = Inr entries"
    using readVault_files [OF f0, of p pw] readLedgerEntries_files [OF f0, of p pw] rv0 rl0
    by simp_all
  have rv1: "readVault p pw w1 = Inr s" and rl1: "readLedgerEntries p pw w1 = Inr entries"
    using readVault_files [OF f1, of p pw] readLedgerEntries_files [OF f1, of p pw] rv rl
    by simp_all
  from rp have
    loop: "replayLoop p (snapshot_cursor s) (memory s) entries = Inr (cs_memory st)"
    and sc: "cs_snapshot_cursor st = snapshot_cursor s"
    and lc: "cs_ledger_cursor st = int (length entries)"
    by (auto simp: replayLedger_def clone_def split: if_splits sum.splits)
  from readVault_schema [OF rv] vaultSnapshotSchema_fixpoint
  have "memory_ok (isDatetime p) (memory s)" by blast
  from replayLoop_memory_ok [OF loop this]
  have mo: "memory_ok (isDatetime p) (cs_memory st)" .
  have before: "snd (getCurrentState p pw rd' w) = Inr st"
    using getCurrentState_of_files [OF ex, of p pw rd'] rv rl rp by simp
  define ns where
    "ns = \<lparr>uid = UID, schema_version = SCHEMA_VERSION, memory = cs_memory st,
           snapshot_cursor = cs_ledger_cursor st, snap_updated_at = t_now rd\<rparr>"
  have schema: "vaultSnapshotSchema (isDatetime p) (json_of_snapshot ns)
                  = (if isDatetime p (t_now rd) then Some ns else None)"
    unfolding ns_def using snapshot_of_valid_memory [OF mo] lc by simp
  have same_files:
    "\<exists>st'. snd (getCurrentState p pw rd' w') = Inr st'
               \<and> cs_memory st' = cs_memory st \<and> cs_ledger_cursor st' = cs_ledger_cursor st"
    if "files w' = files w"
  proof -
    from that ex have ex': "vault_file w' \<noteq> None" "ledger_file w' \<noteq> None" "meta_file w' \<noteq> None"
      by (simp_all add: files_def)
    show ?thesis
      using getCurrentState_of_files [OF ex', of p pw rd']
        readVault_files [OF that, of p pw] readLedgerEntries_files [OF that, of p pw] rv rl rp
      by simp
  qed
  show ?thesis
  proof (cases "cs_ledger_cursor st \<le> cs_snapshot_cursor st")
    case True
    then have "snapshot_locked p pw rd (emit LockAcquired w)
                 = (w1, Inr \<lparr>r_snapshot_cursor = cs_snapshot_cursor st,
                             r_ledger_cursor = cs_ledger_cursor st,
                             r_memory_version = version (cs_memory st)\<rparr>)"
      using e1 rv1 rl1 rp sc by (simp add: snapshot_locked_def)
    with sn have w': "w' = emit LockReleased w1"
      and r: "r = Inr \<lparr>r_snapshot_cursor = cs_snapshot_cursor st,
                       r_ledger_cursor = cs_ledger_cursor st,
                       r_memory_version = version (cs_memory st)\<rparr>"
      by (auto simp: snapshot_def withLock_def)
    have "files w' = files w" using w' f1 by simp
    with same_files r True show ?thesis by auto
  next
    case False
    show ?thesis
    proof (cases "isDatetime p (t_now rd)")
      case no: False
      have "snapshot_locked p pw rd (emit LockAcquired w)
              = (w1, Inl (SchemaValidationError ''Invalid vault snapshot schema''))"
        using e1 rv1 rl1 rp sc False schema no
        by (simp add: snapshot_locked_def writeVault_def ns_def Let_def)
      with sn have "w' = emit LockReleased w1"
        by (auto simp: snapshot_def withLock_def)
      then have "files w' = files w" using f1 by simp
      with same_files False no show ?thesis by auto
    next
      case yes: True
      define env where
        "env = encryptEnvelope (json_of_snapshot ns) pw InfoVault (vaultAAD ns) (salt1 rd) (iv1 rd)"
      define w2 where
        "w2 = emit (WriteFile VaultEnc) (w1\<lparr>vault_file := Some (JsonText (EnvelopeJson env))\<rparr>)"
      have wv: "writeVault p pw (salt1 rd) (iv1 rd) ns w1 = (w2, Inr ())"
        using schema yes by (simp add: writeVault_def w2_def env_def Let_def)
      have "snapshot_locked p pw rd (emit LockAcquired w)
              = (w2, Inr \<lparr>r_snapshot_cursor = cs_ledger_cursor st,
                          r_ledger_cursor = cs_ledger_cursor st,
                          r_memory_version = version (cs_memory st)\<rparr>)"
        using e1 rv1 rl1 rp sc False wv
        by (simp add: snapshot_locked_def Let_def ns_def [symmetric]) (simp add: ns_def)
      with sn have w': "w' = emit LockReleased w2"
        and r: "r = Inr \<lparr>r_snapshot_cursor = cs_ledger_cursor st,
                         r_ledger_cursor = cs_ledger_cursor st,
                         r_memory_version = version (cs_memory st)\<rparr>"
        by (auto simp: snapshot_def withLock_def)
      have vf: "vault_file w' = Some (JsonText (EnvelopeJson env))"
        and lf: "ledger_file w' = ledger_file w" and mf: "meta_file w' = meta_file w"
        using w' f1 by (simp_all add: w2_def emit_def files_def)
      have rv': "readVault p pw w' = Inr ns"
        using vf schema yes unfolding env_def by (intro readVault_after_write) simp_all
      have rl': "readLedgerEntries p pw w' = Inr entries"
        using readLedgerEntries_cong [OF lf, of p pw] rl by simp
      from verifyChain_cursors [OF readLedgerEntries_verified [OF rl]]
      have "list_all (\<lambda>e. cursor e \<le> int (length entries)) entries" by simp
      from replayLoop_skip [OF this]
      have rp': "replayLedger p ns entries
                   = Inr \<lparr>cs_memory = cs_memory st, cs_snapshot_cursor = int (length entries),
                          cs_ledger_cursor = int (length entries)\<rparr>"
        by (simp add: replayLedger_def ns_def lc clone_def)
      have ex': "vault_file w' \<noteq> None" "ledger_file w' \<noteq> None" "meta_file w' \<noteq> None"
        using vf lf mf ex by simp_all
      have after: "snd (getCurrentState p pw rd' w')
                     = Inr \<lparr>cs_memory = cs_memory st, cs_snapshot_cursor = int (length entries),
                            cs_ledger_cursor = int (length entries)\<rparr>"
        using getCurrentState_of_files [OF ex', of p pw rd'] rv' rl' rp' by simp
      have "snapshot_cursor ns = int (length entries) \<and> memory ns = cs_memory st"
        by (simp add: ns_def lc)
      with after rv' rl' lf r lc False show ?thesis by auto
    qed
  qed
qed

theorem C4_compaction_witness:
  "(\<exists>st'. snd (getCurrentState demo_platform ''pass-a'' last_readings
                 (fst (snapshot demo_platform ''pass-a'' last_readings vault_v2))) = Inr st'
          \<and> cs_memory st' = cs_memory state_v2 \<and> cs_ledger_cursor st' = 2)
   \<and> (\<exists>s. readVault demo_platform ''pass-a''
               (fst (snapshot demo_platform ''pass-a'' last_readings vault_v2)) = Inr s
          \<and> snapshot_cursor s = 2 \<and> memory s = cs_memory state_v2)
   \<and> ledger_file (fst (snapshot demo_platform ''pass-a'' last_readings vault_v2))
       = ledger_file vault_v2"
proof -
  have st: "getCurrentState demo_platform ''pass-a'' last_readings vault_v2
              = (fst (getCurrentState demo_platform ''pass-a'' last_readings vault_v2), Inr state_v2)"
    using vault_v2_state by (rule pair_fst_snd)
  have sn: "snapshot demo_platform ''pass-a'' last_readings vault_v2
              = (fst (snapshot demo_platform ''pass-a'' last_readings vault_v2),
                 snd (snapshot demo_platform ''pass-a'' last_readings vault_v2))"
    by simp
  have c: "cs_snapshot_cursor state_v2 < cs_ledger_cursor state_v2
           \<and> isDatetime demo_platform (t_now last_readings)"
    by code_simp
  have l: "cs_ledger_cursor state_v2 = 2"
    by (simp add: state_v2_def)
  from vault_v2_files_exist have ex:
    "vault_file vault_v2 \<noteq> None" "ledger_file vault_v2 \<noteq> None" "meta_file vault_v2 \<noteq> None"
    by simp_all
  from C4_compaction_equivalence [OF ex st sn, of last_readings] c l
  have a: "\<exists>st'. snd (getCurrentState demo_platform ''pass-a'' last_readings
                 (fst (snapshot demo_platform ''pass-a'' last_readings vault_v2))) = Inr st'
          \<and> cs_memory st' = cs_memory state_v2 \<and> cs_ledger_cursor st' = 2"
    and b: "\<exists>s entries. readVault demo_platform ''pass-a''
               (fst (snapshot demo_platform ''pass-a'' last_readings vault_v2)) = Inr s
          \<and> readLedgerEntries demo_platform ''pass-a''
               (fst (snapshot demo_platform ''pass-a'' last_readings vault_v2)) = Inr entries
          \<and> snapshot_cursor s = int (length entries) \<and> memory s = cs_memory state_v2"
    and d: "ledger_file (fst (snapshot demo_platform ''pass-a'' last_readings vault_v2))
       = ledger_file vault_v2"
    and e: "snd (snapshot demo_platform ''pass-a'' last_readings vault_v2)
              = Inr \<lparr>r_snapshot_cursor = cs_ledger_cursor state_v2,
                     r_ledger_cursor = cs_ledger_cursor state_v2,
                     r_memory_version = version (cs_memory state_v2)\<rparr>"
    by simp_all
  have two: "case readLedgerEntries demo_platform ''pass-a'' vault_v2 of
               Inl _ \<Rightarrow> False | Inr es \<Rightarrow> length es = 2"
    by code_simp
  from b d two readLedgerEntries_cong [OF d, of demo_platform "''pass-a''"]
  have b': "\<exists>s. readVault demo_platform ''pass-a''
               (fst (snapshot demo_platform ''pass-a'' last_readings vault_v2)) = Inr s
          \<and> snapshot_cursor s = 2 \<and> memory s = cs_memory state_v2"
    by (auto split: sum.splits)
  from a b' d show ?thesis by blast
qed

subsection \<open>Version conflict (C3)\<close>

lemma memory_ok_version: "memory_ok dt m \<Longrightarrow> 0 \<le> version m"
  by (auto simp: memory_ok_def json_of_memory_def get_int_def get_str_def
        split: option.splits if_splits)

lemma getCurrentState_version:
  assumes "getCurrentState p pw rd w = (w1, Inr current)"
  shows "0 \<le> version (cs_memory current)"
proof -
  from getCurrentState_success [OF assms] obtain s entries where
    rv: "readVault p pw w1 = Inr s" and rp: "replayLedger p s entries = Inr current"
    by blast
  from readVault_schema [OF rv] obtain j where "vaultSnapshotSchema (isDatetime p) j = Some s"
    by blast
  from vaultSnapshotSchema_fixpoint [OF this] have m: "memory_ok (isDatetime p) (memory s)"
    by simp
  from rp have "replayLoop p (snapshot_cursor s) (memory s) entries = Inr (cs_memory current)"
    by (auto simp: replayLedger_def clone_def split: if_splits sum.splits)
  from replayLoop_memory_ok [OF this m] show ?thesis by (rule memory_ok_version)
qed

lemma patchMemory_conflict:
  assumes "jsonPatchSchema (input_patch input) = Some ops"
      and "assertPatchAllowed ops = None"
      and "parseIfMatch (ifMatchHeader input) = Some n"
      and "getCurrentState p pw rd w = (w1, Inr current)"
      and "n \<noteq> Num (version (cs_memory current))"
  shows "snd (patchMemory p pw rd w input)
           = Inl (ConflictError ''Version conflict'' (etagForVersion p (version (cs_memory current))))"
proof -
  from getCurrentState_success [OF assms(4)] obtain s entries where
    e: "ensureDataFiles p pw rd w = (w1, Inr ())"
    and rv: "readVault p pw w1 = Inr s" and rl: "readLedgerEntries p pw w1 = Inr entries"
    and rp: "replayLedger p s entries = Inr current"
    by blast
  obtain w2 r2 where e2: "ensureDataFiles p pw rd (emit LockAcquired w) = (w2, r2)"
    by (cases "ensureDataFiles p pw rd (emit LockAcquired w)")
  have f: "files (emit LockAcquired w) = files w" by simp
  from ensureDataFiles_files [OF f, of p pw rd] e e2
  have r2: "r2 = Inr ()" and f2: "files w2 = files w1" by simp_all
  have "readVault p pw w2 = Inr s" "readLedgerEntries p pw w2 = Inr entries"
    using readVault_files [OF f2] readLedgerEntries_files [OF f2] rv rl by simp_all
  then have "patchMemory_locked p pw rd input ops n (emit LockAcquired w)
               = (w2, Inl (ConflictError ''Version conflict''
                             (etagForVersion p (version (cs_memory current)))))"
    using e2 r2 rp assms(5) by (simp add: patchMemory_locked_def Let_def)
  then show ?thesis
    using assms(1-3) by (simp add: patchMemory_def withLock_def)
qed

text \<open>
  C3: a call whose patch passes the schema and the reserved-path check (the two steps
  before the lock), whose \<^verbatim>\<open>If-Match\<close> parses as \<^verbatim>\<open>"v{n}"\<close>, and for which
  state assembly yields a current memory of a version \<open>v\<close> other than \<open>n\<close>, fails with
  \<^verbatim>\<open>ConflictError\<close>: status 409, the current ETag \<open>t\<close> as the \<^verbatim>\<open>ETag\<close> header and
  as \<^verbatim>\<open>current_etag\<close> in the body the error handler sends. The version is not
  negative, and the ETag is the string \<^verbatim>\<open>"v{version}"\<close>: a quote, \<^verbatim>\<open>v\<close>, the text
  of the number \<open>v\<close> and a quote. Below \<open>2^53\<close> (where every integer is a JavaScript
  number) that text is the decimal numeral of \<open>v\<close>, digits with no leading zero whose
  value is \<open>v\<close>, and the ETag, as an \<^verbatim>\<open>If-Match\<close> header, parses to \<open>v\<close>. The
  journal lines are as before, and the call has only taken the lock and, where a file
  was missing, created it: no append.
\<close>

theorem C3_stale_if_match_conflict:
  assumes "jsonPatchSchema (input_patch input) = Some ops"
      and "assertPatchAllowed ops = None"
      and "parseIfMatch (ifMatchHeader input) = Some n"
      and "getCurrentState p pw rd w = (w1, Inr current)"
      and "v = version (cs_memory current)"
      and "n \<noteq> Num v"
      and "t = etagForVersion p v"
      and "patchMemory p pw rd w input = (w', r)"
  shows "r = Inl (ConflictError ''Version conflict'' t)
     \<and> fails_with 409 r
     \<and> errorHandler (ConflictError ''Version conflict'' t)
         = \<lparr>resp_status = 409, resp_headers = [(''ETag'', t)],
            resp_body = JObj [(''error'', JStr ''Version conflict''), (''current_etag'', JStr t)]\<rparr>
     \<and> t = CHR 0x22 # CHR ''v'' # Number_toString p v @ [CHR 0x22]
     \<and> 0 \<le> v
     \<and> (v < 2 ^ 53 \<longrightarrow>
          Number_toString p v \<noteq> [] \<and> list_all is_digit (Number_toString p v)
          \<and> (hd (Number_toString p v) = CHR ''0'' \<longrightarrow> Number_toString p v = ''0'')
          \<and> decimal_value (Number_toString p v) = v
          \<and> parseIfMatch t = Some (Num v))
     \<and> journal_lines w' = journal_lines w
     \<and> list_all is_plain_write (new_events w w')"
proof -
  have r: "r = Inl (ConflictError ''Version conflict'' t)"
    using patchMemory_conflict [OF assms(1-4)] assms(5-8) by simp
  have a: "admission_failure (ConflictError ''Version conflict'' t)"
    by (simp add: ConflictError_def)
  from r assms(8) have "patchMemory p pw rd w input = (w', Inl (ConflictError ''Version conflict'' t))"
    by simp
  note eff = patchMemory_failure_effect [OF this a]
  have v0: "0 \<le> v"
    using getCurrentState_version [OF assms(4)] assms(5) by simp
  have shape: "t = CHR 0x22 # CHR ''v'' # Number_toString p v @ [CHR 0x22]"
    using assms(7) by (simp add: etagForVersion_def)
  have pin: "Number_toString p v \<noteq> [] \<and> list_all is_digit (Number_toString p v)
          \<and> (hd (Number_toString p v) = CHR ''0'' \<longrightarrow> Number_toString p v = ''0'')
          \<and> decimal_value (Number_toString p v) = v
          \<and> parseIfMatch t = Some (Num v)" if "v < 2 ^ 53"
    using Number_toString_decimal [OF v0 that, of p] parseIfMatch_etagForVersion [OF v0 that, of p]
      assms(7)
    by simp
  show ?thesis
    using r eff v0 pin shape by (simp add: ConflictError_def)
qed

text \<open>At version 1 the ETag is \<^verbatim>\<open>"v1"\<close>, at version 2 it is \<^verbatim>\<open>"v2"\<close>.\<close>

lemma stale_name_schema:
  "jsonPatchSchema (input_patch (demo_input 1 add_name_patch ''agent:other@localhost''))
     = Some [\<lparr>op_name = Add, op_path = ''/identity/name'', op_from = None,
              op_value = Some (JStr ''Alice'')\<rparr>]"
  by code_simp

lemma stale_name_allowed:
  "assertPatchAllowed [\<lparr>op_name = Add, op_path = ''/identity/name'', op_from = None,
                         op_value = Some (JStr ''Alice'')\<rparr>] = None"
  by code_simp

lemma stale_name_if_match:
  "parseIfMatch (ifMatchHeader (demo_input 1 add_name_patch ''agent:other@localhost''))
     = Some (Num 1)"
  by code_simp

lemma etag_strings:
  "etagForVersion demo_platform 1 = [CHR 0x22, CHR ''v'', CHR ''1'', CHR 0x22]
   \<and> etagForVersion demo_platform 2 = [CHR 0x22, CHR ''v'', CHR ''2'', CHR 0x22]"
  by code_simp

theorem C3_stale_if_match_witness:
  "snd (patchMemory demo_platform ''pass-a'' later_readings vault_v1 stale_input)
     = Inl (ConflictError ''Version conflict'' [CHR 0x22, CHR ''v'', CHR ''1'', CHR 0x22])
   \<and> errorHandler (ConflictError ''Version conflict'' [CHR 0x22, CHR ''v'', CHR ''1'', CHR 0x22])
       = \<lparr>resp_status = 409,
          resp_headers = [(''ETag'', [CHR 0x22, CHR ''v'', CHR ''1'', CHR 0x22])],
          resp_body = JObj [(''error'', JStr ''Version conflict''),
                            (''current_etag'', JStr [CHR 0x22, CHR ''v'', CHR ''1'', CHR 0x22])]\<rparr>
   \<and> parseIfMatch [CHR 0x22, CHR ''v'', CHR ''1'', CHR 0x22] = Some (Num 1)
   \<and> journal_lines (fst (patchMemory demo_platform ''pass-a'' later_readings vault_v1 stale_input))
       = journal_lines vault_v1
   \<and> snd (patchMemory demo_platform ''pass-a'' last_readings vault_v2
             (demo_input 1 add_name_patch ''agent:other@localhost''))
       = Inl (ConflictError ''Version conflict'' [CHR 0x22, CHR ''v'', CHR ''2'', CHR 0x22])
   \<and> journal_lines (fst (patchMemory demo_platform ''pass-a'' last_readings vault_v2
                             (demo_input 1 add_name_patch ''agent:other@localhost'')))
       = journal_lines vault_v2"
proof -
  have g1: "getCurrentState demo_platform ''pass-a'' later_readings vault_v1
              = (fst (getCurrentState demo_platform ''pass-a'' later_readings vault_v1),
                 Inr state_v1)"
    using vault_v1_state by (rule pair_fst_snd)
  have v1: "(1::int) = version (cs_memory state_v1)"
    by (simp add: state_v1_def)
  have n1: "Num 0 \<noteq> Num 1" by simp
  have t1: "[CHR 0x22, CHR ''v'', CHR ''1'', CHR 0x22] = etagForVersion demo_platform 1"
    using etag_strings by simp
  have p1: "patchMemory demo_platform ''pass-a'' later_readings vault_v1 stale_input
              = (fst (patchMemory demo_platform ''pass-a'' later_readings vault_v1 stale_input),
                 snd (patchMemory demo_platform ''pass-a'' later_readings vault_v1 stale_input))"
    by simp
  have g2: "getCurrentState demo_platform ''pass-a'' last_readings vault_v2
              = (fst (getCurrentState demo_platform ''pass-a'' last_readings vault_v2),
                 Inr state_v2)"
    using vault_v2_state by (rule pair_fst_snd)
  have v2: "(2::int) = version (cs_memory state_v2)"
    by (simp add: state_v2_def)
  have n2: "Num 1 \<noteq> Num 2" by simp
  have t2: "[CHR 0x22, CHR ''v'', CHR ''2'', CHR 0x22] = etagForVersion demo_platform 2"
    using etag_strings by simp
  have p2: "patchMemory demo_platform ''pass-a'' last_readings vault_v2
              (demo_input 1 add_name_patch ''agent:other@localhost'')
              = (fst (patchMemory demo_platform ''pass-a'' last_readings vault_v2
                        (demo_input 1 add_name_patch ''agent:other@localhost'')),
                 snd (patchMemory demo_platform ''pass-a'' last_readings vault_v2
                        (demo_input 1 add_name_patch ''agent:other@localhost'')))"
    by simp
  from C3_stale_if_match_conflict [OF stale_schema stale_allowed stale_if_match g1 v1 n1 t1 p1]
    C3_stale_if_match_conflict [OF stale_name_schema stale_name_allowed stale_name_if_match
      g2 v2 n2 t2 p2]
  show ?thesis by simp
qed

subsection \<open>Patches with a non-empty actor and reason\<close>

text \<open>
  What a successful \<^verbatim>\<open>patchMemory\<close> leaves behind when the entry it appends passes
  \<^verbatim>\<open>ledgerEntrySchema\<close>: the line decodes, the chain verifies, and versions and
  cursors count the calls.
\<close>

lemma entryBase_members_hash [simp]:
  "entryBase_members (e\<lparr>entry_hash := h\<rparr>) = entryBase_members e"
  by (simp add: entryBase_members_def)

lemma buildEntry_fields:
  "cursor (buildEntry p rd input ops cur entries) = int (length entries) + 1
   \<and> ts (buildEntry p rd input ops cur entries) = t_now rd
   \<and> actor (buildEntry p rd input ops cur entries) = input_actor input
   \<and> base_version (buildEntry p rd input ops cur entries) = version (cs_memory cur)
   \<and> new_version (buildEntry p rd input ops cur entries)
       = round_double (version (cs_memory cur) + 1)
   \<and> reason (buildEntry p rd input ops cur entries) = input_reason input
   \<and> auth (buildEntry p rd input ops cur entries) = Some (input_auth input)
   \<and> patch (buildEntry p rd input ops cur entries) = ops
   \<and> prev_hash (buildEntry p rd input ops cur entries)
       = (if entries \<noteq> [] then entry_hash (last entries) else [])
   \<and> entry_hash (buildEntry p rd input ops cur entries)
       = sha256Hex p (canonicalJson
           (JObj (entryBase_members (buildEntry p rd input ops cur entries))))"
  by (simp add: buildEntry_def Let_def computeEntryHash_def entryBase_members_def)

lemma patchMemory_success:
  assumes "patchMemory p pw rd w input = (w', Inr res)"
  shows "\<exists>w1 s entries cur ops doc b.
       jsonPatchSchema (input_patch input) = Some ops
     \<and> assertPatchAllowed ops = None
     \<and> parseIfMatch (ifMatchHeader input) = Some (Num (version (cs_memory cur)))
     \<and> ensureDataFiles p pw rd (emit LockAcquired w) = (w1, Inr ())
     \<and> readVault p pw w1 = Inr s
     \<and> readLedgerEntries p pw w1 = Inr entries
     \<and> replayLedger p s entries = Inr cur
     \<and> applyPatch p (blocks (cs_memory cur)) ops = Some doc
     \<and> blocksSchema doc = Some b
     \<and> (\<exists>w2. appendLedgerEntry pw rd (buildEntry p rd input ops cur entries) w1 = (w2, Inr ())
              \<and> w' = emit LockReleased w2)
     \<and> res = \<lparr>state = \<lparr>cs_memory = \<lparr>version = round_double (version (cs_memory cur) + 1),
                                      blocks = b, updated_at = t_now rd\<rparr>,
                          cs_snapshot_cursor = snapshot_cursor s,
                          cs_ledger_cursor = int (length entries) + 1\<rparr>,
               applied_entry_cursor = int (length entries) + 1\<rparr>"
proof -
  from assms obtain ops n where
    o: "jsonPatchSchema (input_patch input) = Some ops" "assertPatchAllowed ops = None"
       "parseIfMatch (ifMatchHeader input) = Some n"
    and l: "withLock (patchMemory_locked p pw rd input ops n) w = (w', Inr res)"
    by (auto simp: patchMemory_def split: option.splits)
  from withLock_result [OF l] obtain w2 where
    k: "patchMemory_locked p pw rd input ops n (emit LockAcquired w) = (w2, Inr res)"
    and w': "w' = emit LockReleased w2"
    by blast
  obtain w1 r1 where e: "ensureDataFiles p pw rd (emit LockAcquired w) = (w1, r1)"
    by (cases "ensureDataFiles p pw rd (emit LockAcquired w)")
  from k e show ?thesis
    using o w' buildEntry_fields [of p rd input ops]
    by (auto simp: patchMemory_locked_def Let_def clone_def
          split: sum.splits option.splits if_splits prod.splits)
qed

lemma op_name_roundtrip [simp]: "op_name_of_string (op_name_string k) = Some k"
  by (cases k) (simp_all add: op_name_of_string_def)

lemma auth_roundtrip [simp]: "auth_of_string (auth_string a) = Some a"
  by (cases a) (simp_all add: auth_of_string_def)

lemma jsonPatchOperationSchema_fixpoint:
  assumes "jsonPatchOperationSchema j = Some x"
  shows "operation_ok x"
proof -
  from assms obtain kvs where j: "j = JObj kvs"
    by (cases j) simp_all
  from assms j have c: "op_path x \<noteq> []" "superRefine_ok x" "op_from x \<noteq> Some []"
    by (auto simp: Let_def optional_from_def split: option.splits if_splits json.splits)
  show ?thesis
  proof (cases "op_from x")
    case None
    with c show ?thesis
      by (cases "op_value x")
         (simp_all add: operation_ok_def json_of_operation_def optional_member_def get_str_def
            optional_from_def Let_def superRefine_ok_def)
  next
    case (Some f)
    with c show ?thesis
      by (cases "op_value x")
         (simp_all add: operation_ok_def json_of_operation_def optional_member_def get_str_def
            optional_from_def Let_def superRefine_ok_def)
  qed
qed

lemma those_map_Some:
  "those (map f xs) = Some ys \<Longrightarrow> list_all2 (\<lambda>x y. f x = Some y) xs ys"
proof (induction xs arbitrary: ys)
  case Nil
  then show ?case by simp
next
  case (Cons x xs)
  then show ?case by (auto split: option.splits)
qed

lemma jsonPatchSchema_operations_ok:
  assumes "jsonPatchSchema j = Some ops"
  shows "list_all operation_ok ops"
proof -
  from assms obtain xs where "j = JArr xs" by (cases j) simp_all
  with assms have "list_all2 (\<lambda>x y. jsonPatchOperationSchema x = Some y) xs ops"
    by (simp add: those_map_Some)
  then show ?thesis
    by (induction rule: list_all2_induct) (simp_all add: jsonPatchOperationSchema_fixpoint)
qed

lemma jsonPatchSchema_of_ok:
  "list_all operation_ok ops \<Longrightarrow> jsonPatchSchema (json_of_patch ops) = Some ops"
  by (induction ops) (simp_all add: json_of_patch_def operation_ok_def)

lemma ledgerEntrySchema_of_valid:
  assumes "0 < cursor e" "dt (ts e)" "actor e \<noteq> []" "0 \<le> base_version e" "0 \<le> new_version e"
      and "reason e \<noteq> []" "list_all operation_ok (patch e)"
  shows "ledgerEntrySchema dt (json_of_entry e) = Some e"
  using assms jsonPatchSchema_of_ok [OF assms(7)]
  by (cases "auth e")
     (simp_all add: json_of_entry_def entryBase_members_def entry_head_schema_def get_int_def
        get_str_def optional_auth_def optional_member_def)

lemma hashInput_canonical:
  "canonicalJson (hashInput e) = canonicalJson (JObj (entryBase_members e))"
  by (cases "auth e")
     (simp_all add: canonicalJson_def hashInput_def entryBase_members_def optional_member_def)

lemma appendLedgerEntry_line:
  assumes "appendLedgerEntry pw rd e w = (w', Inr u)"
    and "append_written rd = WroteLine" and "\<not> ledger_open_tail w"
  shows "vault_file w' = vault_file w \<and> meta_file w' = meta_file w
     \<and> ledger_file w' = Some (journal_lines w @ [entry_line pw (salt1 rd) (iv1 rd) e])
     \<and> \<not> ledger_open_tail w'"
  using assms
  by (auto simp: appendLedgerEntry_def put_line_def entry_line_def journal_lines_def emit_def
        Let_def split: if_splits option.splits)

lemma decodeLine_entry_line:
  assumes "ledgerEntrySchema (isDatetime p) (json_of_entry e) = Some e"
  shows "decodeLine p pw (entry_line pw salt iv e) = Inr e"
  using assms
  by (simp add: decodeLine_def entry_line_def decryptEnvelope_def encryptEnvelope_def
        deriveRecordKey_def aadToBuffer_def Let_def)

lemma decodeLines_append:
  assumes "list_all (decodes p pw) ls" and "decodeLine p pw l = Inr e"
  shows "\<exists>es. decodeLines p pw ls = Inr es \<and> length es = length ls
              \<and> decodeLines p pw (ls @ [l]) = Inr (es @ [e])"
  using assms(1)
proof (induction ls)
  case Nil
  show ?case using assms(2) by simp
next
  case (Cons x ls)
  then obtain es where
    e: "decodeLines p pw ls = Inr es" "length es = length ls"
       "decodeLines p pw (ls @ [l]) = Inr (es @ [e])"
    by auto
  from Cons.prems obtain y where "decodeLine p pw x = Inr y"
    by (auto simp: decodes_def split: sum.splits)
  with e show ?case by simp
qed

lemma verifyChain_append:
  "verifyChain p h i (es @ [e])
     = (case verifyChain p h i es of
          Some x \<Rightarrow> Some x
        | None \<Rightarrow> verifyChain p (if es = [] then h else entry_hash (last es))
                    (i + int (length es)) [e])"
proof (induction es arbitrary: h i)
  case Nil
  show ?case by simp
next
  case (Cons x es)
  have "i + 1 + int (length es) = i + int (length (x # es))" by simp
  with Cons [of "entry_hash x" "i + 1"] show ?case
    by (auto simp: add.assoc add.commute split: option.split)
qed

lemma replayLoop_append:
  "replayLoop p sc m (es @ [e])
     = (case replayLoop p sc m es of Inl x \<Rightarrow> Inl x | Inr m' \<Rightarrow> replayLoop p sc m' [e])"
  by (induction es arbitrary: m) (auto simp: Let_def split: option.splits)

lemma digit_value_nonneg: "0 \<le> digit_value c ds"
  by (induction ds) auto

lemma decimal_value_nonneg: "0 \<le> decimal_value ds"
proof -
  have "0 \<le> a \<Longrightarrow> 0 \<le> foldl (\<lambda>acc c. 10 * acc + digit_value c ''0123456789'') a ds" for a
  proof (induction ds arbitrary: a)
    case Nil
    then show ?case by simp
  next
    case (Cons d ds)
    have "0 \<le> 10 * a + digit_value d ''0123456789''"
      using Cons.prems digit_value_nonneg [of d "''0123456789''"] by arith
    from Cons.IH [OF this] show ?case by simp
  qed
  then show ?thesis by (simp add: decimal_value_def)
qed

lemma parseIfMatch_nonneg: "parseIfMatch h = Some (Num v) \<Longrightarrow> 0 \<le> v"
  using round_double_nonneg [OF decimal_value_nonneg]
  by (auto simp: parseIfMatch_def parseInt_def to_number_def Let_def
        split: list.splits if_splits)

lemma ensureDataFiles_success_files:
  assumes "ensureDataFiles p pw rd w = (w', Inr u)"
  shows "vault_file w' \<noteq> None \<and> ledger_file w' \<noteq> None \<and> meta_file w' \<noteq> None"
  using assms
  by (auto simp: ensureDataFiles_def ensureMetaFile_def writeMeta_def writeVault_def emit_def
        Let_def split: if_splits option.splits sum.splits prod.splits)

lemma decodeLines_all_decode:
  assumes "list_all (decodes p pw) ls"
  shows "\<exists>es. decodeLines p pw ls = Inr es \<and> length es = length ls"
  using assms
proof (induction ls)
  case Nil
  show ?case by simp
next
  case (Cons x ls)
  then obtain es where "decodeLines p pw ls = Inr es" "length es = length ls" by auto
  moreover from Cons.prems obtain y where "decodeLine p pw x = Inr y"
    by (auto simp: decodes_def split: sum.splits)
  ultimately show ?case by simp
qed

text \<open>
  A successful call with a non-empty actor and reason and a valid timestamp, whose
  whole line is written, on a journal all of whose lines decode and end with their
  line feed: the line it appends decodes, the chain of the longer journal verifies,
  and the state assembled afterwards is the state returned.
\<close>

lemma patchMemory_then_read:
  assumes ok: "patchMemory p pw rd w input = (w', Inr res)"
    and actor: "input_actor input \<noteq> []" and reason: "input_reason input \<noteq> []"
    and now: "isDatetime p (t_now rd)"
    and whole: "append_written rd = WroteLine"
    and lines: "list_all (decodes p pw) (journal_lines w)"
    and closed: "\<not> ledger_open_tail w"
  shows "\<exists>entries e.
           readLedgerEntries p pw w' = Inr (entries @ [e])
           \<and> length entries = length (journal_lines w)
           \<and> journal_lines w' = journal_lines w @ [entry_line pw (salt1 rd) (iv1 rd) e]
           \<and> decodes p pw (entry_line pw (salt1 rd) (iv1 rd) e)
           \<and> cursor e = applied_entry_cursor res
           \<and> cursor e = int (length (journal_lines w)) + 1
           \<and> cs_ledger_cursor (state res) = int (length (journal_lines w)) + 1
           \<and> new_version e = version (cs_memory (state res))
           \<and> vault_file w' \<noteq> None \<and> ledger_file w' \<noteq> None \<and> meta_file w' \<noteq> None
           \<and> \<not> ledger_open_tail w'
           \<and> readVault p pw w' = readVault p pw (fst (ensureDataFiles p pw rd (emit LockAcquired w)))
           \<and> snd (getCurrentState p pw rd' w') = Inr (state res)"
proof -
  from patchMemory_success [OF ok] obtain w1 w2 s entries cur ops doc b where
    ops: "jsonPatchSchema (input_patch input) = Some ops"
    and ifm: "parseIfMatch (ifMatchHeader input) = Some (Num (version (cs_memory cur)))"
    and ens: "ensureDataFiles p pw rd (emit LockAcquired w) = (w1, Inr ())"
    and rv: "readVault p pw w1 = Inr s"
    and rl: "readLedgerEntries p pw w1 = Inr entries"
    and rp: "replayLedger p s entries = Inr cur"
    and ap: "applyPatch p (blocks (cs_memory cur)) ops = Some doc"
    and bs: "blocksSchema doc = Some b"
    and app: "appendLedgerEntry pw rd (buildEntry p rd input ops cur entries) w1 = (w2, Inr ())"
    and w': "w' = emit LockReleased w2"
    and res: "res = \<lparr>state = \<lparr>cs_memory = \<lparr>version = round_double (version (cs_memory cur) + 1),
                                           blocks = b, updated_at = t_now rd\<rparr>,
                               cs_snapshot_cursor = snapshot_cursor s,
                               cs_ledger_cursor = int (length entries) + 1\<rparr>,
                     applied_entry_cursor = int (length entries) + 1\<rparr>"
    by blast
  define e where "e = buildEntry p rd input ops cur entries"
  note f = buildEntry_fields [of p rd input ops cur entries, folded e_def]
  have v0: "0 \<le> version (cs_memory cur)" using ifm by (rule parseIfMatch_nonneg)
  have v1: "0 \<le> round_double (version (cs_memory cur) + 1)"
    using v0 by (intro round_double_nonneg) simp
  have closed1: "\<not> ledger_open_tail w1"
    using ensureDataFiles_open_tail [of p pw rd "emit LockAcquired w"] ens closed
    by (simp add: emit_def)
  have ex1: "vault_file w1 \<noteq> None" "ledger_file w1 \<noteq> None" "meta_file w1 \<noteq> None"
    using ensureDataFiles_success_files [OF ens] by simp_all
  have jl1: "journal_lines w1 = journal_lines w"
    using ensureDataFiles_effect [OF ens] by (simp add: journal_lines_def emit_def)
  from ex1(2) have lf1: "ledger_file w1 = Some (journal_lines w)"
    using jl1 by (auto simp: journal_lines_def)
  from decodeLines_all_decode [OF lines] obtain es where
    es: "decodeLines p pw (journal_lines w) = Inr es" "length es = length (journal_lines w)"
    by blast
  from rl lf1 es have ent: "entries = es"
    by (auto simp: readLedgerEntries_def split: option.splits)
  have len: "length entries = length (journal_lines w)" using ent es by simp
  have vc: "verifyChain p [] 0 entries = None" using rl by (rule readLedgerEntries_verified)
  have sch: "ledgerEntrySchema (isDatetime p) (json_of_entry e) = Some e"
    using actor reason now v0 v1 jsonPatchSchema_operations_ok [OF ops]
    by (intro ledgerEntrySchema_of_valid) (simp_all add: f)
  have dl: "decodeLine p pw (entry_line pw (salt1 rd) (iv1 rd) e) = Inr e"
    using sch by (rule decodeLine_entry_line)
  have files': "vault_file w' = vault_file w1" "meta_file w' = meta_file w1"
    "ledger_file w' = Some (journal_lines w @ [entry_line pw (salt1 rd) (iv1 rd) e])"
    "\<not> ledger_open_tail w'"
    using appendLedgerEntry_line [OF app [folded e_def] whole closed1]
    by (simp_all add: w' emit_def jl1)
  from decodeLines_append [OF lines dl] es
  have dls: "decodeLines p pw (journal_lines w @ [entry_line pw (salt1 rd) (iv1 rd) e])
               = Inr (entries @ [e])"
    by (simp add: ent)
  have hash: "computeEntryHash p (hashInput e) = entry_hash e"
    by (simp add: computeEntryHash_def hashInput_canonical f)
  have vc': "verifyChain p [] 0 (entries @ [e]) = None"
    by (simp add: verifyChain_append vc f hash)
  have rl': "readLedgerEntries p pw w' = Inr (entries @ [e])"
    by (simp add: readLedgerEntries_def files' dls vc')
  have rv': "readVault p pw w' = readVault p pw w1"
    by (simp add: readVault_def files')
  from rp have sc: "snapshot_cursor s \<le> int (length entries)"
    and loop: "replayLoop p (snapshot_cursor s) (memory s) entries = Inr (cs_memory cur)"
    by (auto simp: replayLedger_def clone_def split: if_splits sum.splits)
  have last: "replayLoop p (snapshot_cursor s) (cs_memory cur) [e]
                = Inr \<lparr>version = round_double (version (cs_memory cur) + 1), blocks = b,
                       updated_at = t_now rd\<rparr>"
    using sc ap bs now v1
    by (simp add: f clone_def json_of_memory_def get_int_def get_str_def Let_def)
  have rp': "replayLedger p s (entries @ [e]) = Inr (state res)"
    using sc
    by (simp add: replayLedger_def clone_def replayLoop_append loop last res
          del: replayLoop.simps)
  have ex': "vault_file w' \<noteq> None" "ledger_file w' \<noteq> None" "meta_file w' \<noteq> None"
    using ex1 by (simp_all add: files')
  have get: "snd (getCurrentState p pw rd' w') = Inr (state res)"
    by (simp add: getCurrentState_of_files [OF ex'] rv' rv rl' rp')
  have dec: "decodes p pw (entry_line pw (salt1 rd) (iv1 rd) e)"
    by (simp add: decodes_def dl)
  have jl': "journal_lines w' = journal_lines w @ [entry_line pw (salt1 rd) (iv1 rd) e]"
    by (simp add: journal_lines_def files')
  show ?thesis
    using rl' len jl' dec ex' get rv' ens files'(4)
    by (intro exI [of _ entries] exI [of _ e]) (simp add: res f)
qed

lemma verifyChain_corruption:
  "verifyChain p h i es = Some e \<Longrightarrow> statusCode e = Some 500 \<and> is_StorageCorruptionError e"
  by (induction es arbitrary: h i) (auto simp: corruption_status split: if_splits)

lemma verifyChain_sound:
  assumes "verifyChain p h i es = None" and "n < length es"
  shows "cursor (es ! n) = i + int n + 1
     \<and> prev_hash (es ! n) = (if n = 0 then h else entry_hash (es ! (n - 1)))
     \<and> entry_hash (es ! n) = sha256Hex p (canonicalJson (JObj (entryBase_members (es ! n))))"
  using assms
proof (induction es arbitrary: h i n)
  case Nil
  then show ?case by simp
next
  case (Cons x es)
  from Cons.prems(1) have
    x: "cursor x = i + 1" "prev_hash x = h" "computeEntryHash p (hashInput x) = entry_hash x"
    and rest: "verifyChain p (entry_hash x) (i + 1) es = None"
    by (auto split: if_splits)
  show ?case
  proof (cases n)
    case 0
    with x show ?thesis by (simp add: computeEntryHash_def hashInput_canonical)
  next
    case (Suc m)
    with Cons.prems(2) have "m < length es" by simp
    from Cons.IH [OF rest this] Suc show ?thesis
      by (cases m) (simp_all add: add.assoc)
  qed
qed

lemma assembled_entries:
  assumes ex: "vault_file w \<noteq> None" "ledger_file w \<noteq> None" "meta_file w \<noteq> None"
    and lines: "list_all (decodes p pw) (journal_lines w)"
    and before: "snd (getCurrentState p pw rd w) = Inr cur"
  shows "\<exists>entries. readLedgerEntries p pw w = Inr entries
           \<and> length entries = length (journal_lines w)
           \<and> verifyChain p [] 0 entries = None
           \<and> cs_ledger_cursor cur = int (length (journal_lines w))"
proof -
  from decodeLines_all_decode [OF lines] obtain es where
    es: "decodeLines p pw (journal_lines w) = Inr es" "length es = length (journal_lines w)"
    by blast
  from ex(2) have lf: "ledger_file w = Some (journal_lines w)"
    by (auto simp: journal_lines_def)
  from before obtain s entries where
    rl: "readLedgerEntries p pw w = Inr entries" and rp: "replayLedger p s entries = Inr cur"
    by (auto simp: getCurrentState_of_files [OF ex] split: sum.splits)
  from rl lf es have "entries = es"
    by (auto simp: readLedgerEntries_def split: option.splits)
  with rp es rl readLedgerEntries_verified [OF rl] show ?thesis
    by (auto simp: replayLedger_def split: if_splits sum.splits)
qed

lemma assembled_ledger_cursor:
  assumes "vault_file w \<noteq> None" "ledger_file w \<noteq> None" "meta_file w \<noteq> None"
    and "list_all (decodes p pw) (journal_lines w)"
    and "snd (getCurrentState p pw rd w) = Inr cur"
  shows "cs_ledger_cursor cur = int (length (journal_lines w))"
  using assembled_entries [OF assms] by blast

lemma getCurrentState_any_readings:
  assumes ex: "vault_file w \<noteq> None" "ledger_file w \<noteq> None" "meta_file w \<noteq> None"
  shows "snd (getCurrentState p pw rd w) = snd (getCurrentState p pw rd' w)"
  by (simp add: getCurrentState_of_files [OF ex])

lemma patchMemory_step:
  assumes ok: "patchMemory p pw rd w input = (w', Inr res)"
    and actor: "input_actor input \<noteq> []" and reason: "input_reason input \<noteq> []"
    and now: "isDatetime p (t_now rd)"
    and whole: "append_written rd = WroteLine"
    and lines: "list_all (decodes p pw) (journal_lines w)"
    and closed: "\<not> ledger_open_tail w"
    and ex: "vault_file w \<noteq> None" "ledger_file w \<noteq> None" "meta_file w \<noteq> None"
    and before: "snd (getCurrentState p pw rd0 w) = Inr cur"
    and safe: "version (cs_memory cur) + 1 < 2 ^ 53"
  shows "vault_file w' \<noteq> None \<and> ledger_file w' \<noteq> None \<and> meta_file w' \<noteq> None
     \<and> list_all (decodes p pw) (journal_lines w') \<and> \<not> ledger_open_tail w'
     \<and> length (journal_lines w') = length (journal_lines w) + 1
     \<and> snd (getCurrentState p pw rd' w') = Inr (state res)
     \<and> version (cs_memory (state res)) = version (cs_memory cur) + 1
     \<and> cs_ledger_cursor (state res) = cs_ledger_cursor cur + 1
     \<and> applied_entry_cursor res = cs_ledger_cursor cur + 1"
proof -
  from patchMemory_then_read [OF ok actor reason now whole lines closed, of rd']
  obtain entries e where
    r: "journal_lines w' = journal_lines w @ [entry_line pw (salt1 rd) (iv1 rd) e]"
       "decodes p pw (entry_line pw (salt1 rd) (iv1 rd) e)"
       "cursor e = applied_entry_cursor res"
       "cursor e = int (length (journal_lines w)) + 1"
       "cs_ledger_cursor (state res) = int (length (journal_lines w)) + 1"
       "\<not> ledger_open_tail w'"
       "vault_file w' \<noteq> None" "ledger_file w' \<noteq> None" "meta_file w' \<noteq> None"
       "snd (getCurrentState p pw rd' w') = Inr (state res)"
    by blast
  from patchMemory_success [OF ok] obtain w1 s es cur2 where
    ens: "ensureDataFiles p pw rd (emit LockAcquired w) = (w1, Inr ())"
    and rv: "readVault p pw w1 = Inr s"
    and rl: "readLedgerEntries p pw w1 = Inr es"
    and rp: "replayLedger p s es = Inr cur2"
    and ver: "version (cs_memory (state res)) = round_double (version (cs_memory cur2) + 1)"
    by fastforce
  have ex1: "vault_file (emit LockAcquired w) \<noteq> None" "ledger_file (emit LockAcquired w) \<noteq> None"
    "meta_file (emit LockAcquired w) \<noteq> None"
    using ex by (simp_all add: emit_def)
  from ens have w1: "w1 = emit Mkdir (emit LockAcquired w)"
    by (simp add: ensureDataFiles_noop [OF ex1])
  have fl: "files w1 = files w" by (simp add: w1)
  have "snd (getCurrentState p pw rd0 w) = Inr cur2"
    using rv rl rp
    by (simp add: getCurrentState_of_files [OF ex] readVault_files [OF fl, symmetric]
          readLedgerEntries_files [OF fl, symmetric])
  with before have same: "cur2 = cur" by simp
  have lc: "cs_ledger_cursor cur = int (length (journal_lines w))"
    using ex lines before by (rule assembled_ledger_cursor)
  from ver same safe have v: "version (cs_memory (state res)) = version (cs_memory cur) + 1"
    by (simp add: round_double_safe)
  show ?thesis
    using r lines v lc by simp
qed

text \<open>
  A sequence of successful calls, each with a non-empty actor and reason, a valid
  timestamp and its whole line written, on a vault whose journal lines all decode and
  end with their line feed: versions and cursors count the calls.
\<close>

lemma patch_all_counts:
  assumes "patch_all p pw calls w = Some w'" and "list_all (call_ok p) calls"
    and "vault_file w \<noteq> None" "ledger_file w \<noteq> None" "meta_file w \<noteq> None"
    and "list_all (decodes p pw) (journal_lines w)"
    and "snd (getCurrentState p pw rd0 w) = Inr cur"
    and "\<not> ledger_open_tail w"
    and "version (cs_memory cur) + int (length calls) < 2 ^ 53"
  shows "\<exists>cur'. snd (getCurrentState p pw rd' w') = Inr cur'
           \<and> version (cs_memory cur') = version (cs_memory cur) + int (length calls)
           \<and> cs_ledger_cursor cur' = cs_ledger_cursor cur + int (length calls)
           \<and> length (journal_lines w') = length (journal_lines w) + length calls
           \<and> list_all (decodes p pw) (journal_lines w') \<and> \<not> ledger_open_tail w'
           \<and> vault_file w' \<noteq> None \<and> ledger_file w' \<noteq> None \<and> meta_file w' \<noteq> None"
  using assms
proof (induction calls arbitrary: w cur rd0)
  case Nil
  then show ?case
    using getCurrentState_any_readings [of w p pw rd' rd0] by simp
next
  case (Cons c calls)
  obtain rd input where c: "c = (rd, input)" by (cases c)
  from Cons.prems(1) c obtain w1 res where
    ok: "patchMemory p pw rd w input = (w1, Inr res)"
    and rest: "patch_all p pw calls w1 = Some w'"
    by (auto split: prod.splits sum.splits)
  from Cons.prems(2) c have
    valid: "input_actor input \<noteq> []" "input_reason input \<noteq> []" "isDatetime p (t_now rd)"
      "append_written rd = WroteLine"
    and valid_rest: "list_all (call_ok p) calls"
    by simp_all
  from Cons.prems(9) have safe: "version (cs_memory cur) + 1 < 2 ^ 53" by simp
  note step = patchMemory_step [OF ok valid Cons.prems(6) Cons.prems(8) Cons.prems(3-5)
      Cons.prems(7) safe, of rd0]
  from step have ex1: "vault_file w1 \<noteq> None" "ledger_file w1 \<noteq> None" "meta_file w1 \<noteq> None"
    and lines1: "list_all (decodes p pw) (journal_lines w1)"
    and st1: "snd (getCurrentState p pw rd0 w1) = Inr (state res)"
    and closed1: "\<not> ledger_open_tail w1"
    by simp_all
  from step Cons.prems(9)
  have safe1: "version (cs_memory (state res)) + int (length calls) < 2 ^ 53" by simp
  from Cons.IH [OF rest valid_rest ex1 lines1 st1 closed1 safe1] step show ?case
    by auto
qed

lemma initialize_fresh:
  assumes "initialize p pw rd empty_dir = (w0, Inr ())"
  shows "vault_file w0 \<noteq> None \<and> ledger_file w0 \<noteq> None \<and> meta_file w0 \<noteq> None
     \<and> journal_lines w0 = [] \<and> \<not> ledger_open_tail w0
     \<and> (\<exists>cur. snd (getCurrentState p pw rd' w0) = Inr cur
              \<and> version (cs_memory cur) = 0 \<and> cs_ledger_cursor cur = 0)"
proof -
  define s0 where "s0 = \<lparr>uid = UID, schema_version = SCHEMA_VERSION,
                          memory = emptyMemory (t_memory rd), snapshot_cursor = 0,
                          snap_updated_at = t_snapshot rd\<rparr>"
  from assms obtain w1 where
    ens: "ensureDataFiles p pw rd (emit LockAcquired empty_dir) = (w1, Inr ())"
    and w0: "w0 = emit LockReleased w1"
    by (auto simp: initialize_def dest: withLock_result)
  from ens obtain v where
    v: "vaultSnapshotSchema (isDatetime p) (json_of_snapshot s0) = Some v"
    and vf: "vault_file w1 = Some (JsonText (EnvelopeJson
               (encryptEnvelope (json_of_snapshot v) pw InfoVault (vaultAAD v) (salt0 rd) (iv0 rd))))"
    and lf: "ledger_file w1 = Some []"
    by (auto simp: ensureDataFiles_def ensureMetaFile_def writeMeta_def writeVault_def emit_def
          empty_dir_def Let_def s0_def split: if_splits option.splits sum.splits prod.splits)
  from v have v0: "version (memory v) = 0" "snapshot_cursor v = 0"
    by (auto simp: s0_def json_of_snapshot_def json_of_memory_def emptyMemory_def get_int_def
          get_str_def split: option.splits if_splits)
  have vfix: "vaultSnapshotSchema (isDatetime p) (json_of_snapshot v) = Some v"
    using vaultSnapshotSchema_fixpoint [OF v] by simp
  have rv: "readVault p pw w0 = Inr v"
    by (rule readVault_after_write [OF _ vfix]) (simp add: w0 emit_def vf)
  have rl: "readLedgerEntries p pw w0 = Inr []"
    by (simp add: readLedgerEntries_def w0 emit_def lf)
  have ex: "vault_file w0 \<noteq> None" "ledger_file w0 \<noteq> None" "meta_file w0 \<noteq> None"
    using ensureDataFiles_success_files [OF ens] by (simp_all add: w0 emit_def)
  have "snd (getCurrentState p pw rd' w0)
          = Inr \<lparr>cs_memory = memory v, cs_snapshot_cursor = 0, cs_ledger_cursor = 0\<rparr>"
    by (simp add: getCurrentState_of_files [OF ex] rv rl replayLedger_def v0 clone_def)
  moreover have "\<not> ledger_open_tail w0"
    using ensureDataFiles_open_tail [of p pw rd "emit LockAcquired empty_dir"] ens
    by (simp add: w0 emit_def empty_dir_def)
  ultimately show ?thesis
    using ex v0 lf by (simp add: journal_lines_def w0 emit_def)
qed

text \<open>
  From a freshly initialized vault, \<open>k\<close> successful calls (\<open>k\<close> below \<open>2^53\<close>) with
  non-empty actors and reasons, valid timestamps and whole lines written leave
  version \<open>k\<close>, ledger cursor \<open>k\<close> and a journal of \<open>k\<close> lines whose chain verifies.
\<close>

lemma patches_from_fresh_vault:
  assumes init: "initialize p pw rd empty_dir = (w0, Inr ())"
    and run: "patch_all p pw calls w0 = Some w'"
    and valid: "list_all (call_ok p) calls"
    and safe: "int (length calls) < 2 ^ 53"
  shows "\<exists>cur entries.
           snd (getCurrentState p pw rd' w') = Inr cur
           \<and> version (cs_memory cur) = int (length calls)
           \<and> cs_ledger_cursor cur = int (length calls)
           \<and> length (journal_lines w') = length calls
           \<and> readLedgerEntries p pw w' = Inr entries
           \<and> length entries = length calls
           \<and> verifyChain p [] 0 entries = None"
proof -
  from initialize_fresh [OF init, of rd] obtain cur0 where
    ex: "vault_file w0 \<noteq> None" "ledger_file w0 \<noteq> None" "meta_file w0 \<noteq> None"
    and jl: "journal_lines w0 = []" and closed: "\<not> ledger_open_tail w0"
    and st: "snd (getCurrentState p pw rd w0) = Inr cur0"
    and z: "version (cs_memory cur0) = 0" "cs_ledger_cursor cur0 = 0"
    by blast
  have lines: "list_all (decodes p pw) (journal_lines w0)" by (simp add: jl)
  have safe0: "version (cs_memory cur0) + int (length calls) < 2 ^ 53"
    using safe z by simp
  from patch_all_counts [OF run valid ex lines st closed safe0, of rd'] obtain cur where
    c: "snd (getCurrentState p pw rd' w') = Inr cur"
       "version (cs_memory cur) = int (length calls)"
       "cs_ledger_cursor cur = int (length calls)"
       "length (journal_lines w') = length calls"
    and lines': "list_all (decodes p pw) (journal_lines w')"
    and ex': "vault_file w' \<noteq> None" "ledger_file w' \<noteq> None" "meta_file w' \<noteq> None"
    by (auto simp: z jl)
  from assembled_entries [OF ex' lines' c(1)] c show ?thesis
    by auto
qed

text \<open>
  The two patches that lead to the vault at version 2 are such a sequence.
\<close>

lemma patches_from_fresh_vault_instance:
  "initialize demo_platform ''pass-a'' demo_readings empty_dir = (fresh_vault, Inr ())
   \<and> patch_all demo_platform ''pass-a''
        [(demo_readings, demo_input 0 add_name_patch ''agent:demo@localhost''),
         (later_readings, demo_input 1 add_rule_patch ''agent:demo@localhost'')] fresh_vault
       = Some vault_v2
   \<and> list_all (call_ok demo_platform)
        [(demo_readings, demo_input 0 add_name_patch ''agent:demo@localhost''),
         (later_readings, demo_input 1 add_rule_patch ''agent:demo@localhost'')]"
  by code_simp

subsection \<open>Entries with an empty actor (C1, C2)\<close>

text \<open>
  \<^verbatim>\<open>patchMemory\<close> does not check the actor and the reason it is given, while
  \<^verbatim>\<open>ledgerEntrySchema\<close> requires both to be non-empty. An entry appended with an
  empty actor is therefore rejected by the reader's schema check; as the last line of
  the journal it is silently discarded.

  C2 at such an input: on a freshly initialized vault, a patch with \<^verbatim>\<open>If-Match: "v0"\<close>
  and an empty actor succeeds and returns version 1 and entry cursor 1, and the journal
  file holds one line; the state assembled afterwards has version 0 and ledger cursor 0.
\<close>

theorem C2_empty_actor_patch_is_lost:
  "patched_version (snd (patchMemory demo_platform ''pass-a'' demo_readings fresh_vault
                           (demo_input 0 add_name_patch []))) = Some 1
   \<and> patched_cursor (snd (patchMemory demo_platform ''pass-a'' demo_readings fresh_vault
                            (demo_input 0 add_name_patch []))) = Some 1
   \<and> length (journal_lines (fst (patchMemory demo_platform ''pass-a'' demo_readings fresh_vault
                                    (demo_input 0 add_name_patch [])))) = 1
   \<and> assembled_version (snd (getCurrentState demo_platform ''pass-a'' later_readings
        (fst (patchMemory demo_platform ''pass-a'' demo_readings fresh_vault
                (demo_input 0 add_name_patch []))))) = Some 0
   \<and> assembled_cursor (snd (getCurrentState demo_platform ''pass-a'' later_readings
        (fst (patchMemory demo_platform ''pass-a'' demo_readings fresh_vault
                (demo_input 0 add_name_patch []))))) = Some 0"
  by code_simp

text \<open>
  C1 at such an input: three successful patches, the second with an empty actor. The
  third call does not see the second entry, so it appends an entry with cursor 2 again,
  whose \<^verbatim>\<open>prev_hash\<close> is the hash of the first entry and not the \<^verbatim>\<open>entry_hash\<close>
  of the entry stored before it. Reading the journal now fails with corruption.
\<close>

theorem C1_chain_broken_after_lost_entry:
  "patched_version (snd (patchMemory demo_platform ''pass-a'' demo_readings fresh_vault
                           (demo_input 0 add_name_patch ''agent:demo@localhost''))) = Some 1
   \<and> patched_version (snd (patchMemory demo_platform ''pass-a'' later_readings vault_v1
                              empty_actor_input)) = Some 2
   \<and> patched_version (snd (patchMemory demo_platform ''pass-a'' last_readings vault_lost
                              (demo_input 1 add_rule_patch ''agent:demo@localhost''))) = Some 2
   \<and> length (journal_lines vault_broken) = 3
   \<and> stored_member ''cursor'' (journal_lines vault_broken ! 1) = Some (JNum 2)
   \<and> stored_member ''cursor'' (journal_lines vault_broken ! 2) = Some (JNum 2)
   \<and> stored_member ''prev_hash'' (journal_lines vault_broken ! 2)
       \<noteq> stored_member ''entry_hash'' (journal_lines vault_broken ! 1)
   \<and> fails_with 500 (readLedgerEntries demo_platform ''pass-a'' vault_broken)"
  by code_simp

end
